theory Spec2Isabelle
  imports Main "HOL-Library.AList" "HOL-Library.Product_Lexorder" "HOL-Library.Multiset"
begin

section \<open>The sparse matrix of \<open>main.py\<close>\<close>

text \<open>
  The class \<open>SparseMatrix\<close> keeps two integers and a Python dictionary from
  coordinate pairs to values. Python integers are unbounded, so they are \<open>int\<close>.
  A Python dictionary remembers the order in which its keys were inserted and never
  holds a key twice; it is modelled as an association list in insertion order:
  \<^item> \<open>d[k] = v\<close> overwrites the value in place when \<open>k\<close> is present and appends
    \<open>(k, v)\<close> otherwise: \<open>AList.update\<close>;
  \<^item> \<open>del d[k]\<close> removes the key: \<open>AList.delete\<close>;
  \<^item> \<open>d.get(k, 0)\<close> reads through \<open>map_of\<close>;
  \<^item> \<open>d.items()\<close> is the list itself, \<open>d.copy()\<close> is the same value.
  The keys of a dictionary are pairwise distinct; \<open>wf_dict\<close> states this for the list.
\<close>

type_synonym coord = "int \<times> int"
type_synonym dict = "(coord \<times> int) list"

record SparseMatrix =
  rows :: int
  cols :: int
  data :: dict

text \<open>
  The exceptions that arise: \<open>ValueError\<close> with its message, the \<open>IndexError\<close> of
  a list index out of range, and \<open>OSError\<close> for any failure to open or read a file.
\<close>

datatype error = ValueError string | IndexError | OSError

definition wf_dict :: "dict \<Rightarrow> bool" where
  "wf_dict d = distinct (map fst d)"

definition no_zero :: "dict \<Rightarrow> bool" where
  "no_zero d = (0 \<notin> snd ` set d)"

definition in_bounds :: "SparseMatrix \<Rightarrow> bool" where
  "in_bounds M =
     list_all (\<lambda>((row, col), val). 0 \<le> row \<and> row < rows M \<and> 0 \<le> col \<and> col < cols M) (data M)"

text \<open>The stored entries whose value is not 0.\<close>

definition nonzero_entries :: "SparseMatrix \<Rightarrow> (coord \<times> int) set" where
  "nonzero_entries M = set (filter (\<lambda>(k, v). v \<noteq> 0) (data M))"

text \<open>\<open>SparseMatrix(rows=r, cols=c)\<close>: the constructor without a file path.\<close>

definition SparseMatrix_empty :: "int \<Rightarrow> int \<Rightarrow> SparseMatrix" where
  "SparseMatrix_empty r c = \<lparr>rows = r, cols = c, data = []\<rparr>"

definition get_element :: "SparseMatrix \<Rightarrow> int \<Rightarrow> int \<Rightarrow> int" where
  "get_element M row col = (case map_of (data M) (row, col) of None \<Rightarrow> 0 | Some v \<Rightarrow> v)"

definition set_element :: "SparseMatrix \<Rightarrow> int \<Rightarrow> int \<Rightarrow> int \<Rightarrow> SparseMatrix" where
  "set_element M row col val =
     (if val \<noteq> 0 then M\<lparr>data := AList.update (row, col) val (data M)\<rparr>
      else if (row, col) \<in> fst ` set (data M) then M\<lparr>data := AList.delete (row, col) (data M)\<rparr>
      else M)"

subsection \<open>Addition and subtraction\<close>

text \<open>
  The loop bodies of \<open>add\<close> and \<open>subtract\<close>, run on one item of \<open>other.data\<close>
  with \<open>result\<close> as the state.
\<close>

definition add_step :: "coord \<times> int \<Rightarrow> SparseMatrix \<Rightarrow> SparseMatrix" where
  "add_step = (\<lambda>((row, col), val) result.
     set_element result row col (get_element result row col + val))"

definition subtract_step :: "coord \<times> int \<Rightarrow> SparseMatrix \<Rightarrow> SparseMatrix" where
  "subtract_step = (\<lambda>((row, col), val) result.
     set_element result row col (get_element result row col - val))"

definition add :: "SparseMatrix \<Rightarrow> SparseMatrix \<Rightarrow> error + SparseMatrix" where
  "add self other =
     (if rows self \<noteq> rows other \<or> cols self \<noteq> cols other
      then Inl (ValueError ''Matrix dimensions must match for addition'')
      else Inr (fold add_step (data other)
                  ((SparseMatrix_empty (rows self) (cols self))\<lparr>data := data self\<rparr>)))"

definition subtract :: "SparseMatrix \<Rightarrow> SparseMatrix \<Rightarrow> error + SparseMatrix" where
  "subtract self other =
     (if rows self \<noteq> rows other \<or> cols self \<noteq> cols other
      then Inl (ValueError ''Matrix dimensions must match for subtraction'')
      else Inr (fold subtract_step (data other)
                  ((SparseMatrix_empty (rows self) (cols self))\<lparr>data := data self\<rparr>)))"

text \<open>A finite sequence of \<open>set_element\<close> calls, each with its three arguments.\<close>

fun set_elements :: "SparseMatrix \<Rightarrow> (int \<times> int \<times> int) list \<Rightarrow> SparseMatrix" where
  "set_elements M [] = M"
| "set_elements M ((row, col, val) # calls) = set_elements (set_element M row col val) calls"

subsection \<open>Multiplication\<close>

text \<open>\<open>range(n)\<close> for an integer \<open>n\<close>: empty when \<open>n \<le> 0\<close>.\<close>

definition py_range :: "int \<Rightarrow> int list" where
  "py_range n = [0..n - 1]"

text \<open>
  The body of the inner loop of \<open>multiply\<close> for one column \<open>c2\<close>, the body of the
  outer loop for one item of \<open>self.data\<close>, and the method.
\<close>

definition multiply_inner :: "SparseMatrix \<Rightarrow> int \<Rightarrow> int \<Rightarrow> int \<Rightarrow> int \<Rightarrow> SparseMatrix \<Rightarrow> SparseMatrix" where
  "multiply_inner other r1 c1 v1 c2 result =
     (let v2 = get_element other c1 c2 in
      if v2 \<noteq> 0
      then (let current_val = get_element result r1 c2
            in set_element result r1 c2 (current_val + v1 * v2))
      else result)"

definition multiply_step :: "SparseMatrix \<Rightarrow> coord \<times> int \<Rightarrow> SparseMatrix \<Rightarrow> SparseMatrix" where
  "multiply_step other = (\<lambda>((r1, c1), v1) result.
     fold (multiply_inner other r1 c1 v1) (py_range (cols other)) result)"

definition multiply :: "SparseMatrix \<Rightarrow> SparseMatrix \<Rightarrow> error + SparseMatrix" where
  "multiply self other =
     (if cols self \<noteq> rows other
      then Inl (ValueError ''Matrix dimensions do not allow multiplication'')
      else Inr (fold (multiply_step other) (data self)
                  (SparseMatrix_empty (rows self) (cols other))))"

text \<open>
  The dense reference the specification validates \<open>multiply\<close> against: the sum over
  \<open>k\<close> in \<open>[0, A.cols)\<close> of \<open>A(r, k) * B(k, c)\<close>, following the specification's
  words (the source has no dense implementation).
\<close>

definition dense_product :: "SparseMatrix \<Rightarrow> SparseMatrix \<Rightarrow> int \<Rightarrow> int \<Rightarrow> int" where
  "dense_product A B r c =
     sum_list (map (\<lambda>k. get_element A r k * get_element B k c) (py_range (cols A)))"

section \<open>The text codec\<close>

subsection \<open>Python strings\<close>

text \<open>
  A Python \<open>str\<close> is a sequence of code points; a \<open>char\<close> here is a code point
  below 256, and text with higher code points is outside the model. \<open>isspace\<close> lists
  the code points below 256 that \<open>str.strip()\<close> removes: tab, line feed, vertical
  tab, form feed, carriage return, the four separators 0x1C to 0x1F, space, next line
  (0x85) and no-break space (0xA0).
\<close>

definition LF :: char where
  "LF = CHR 0x0A"

definition CR :: char where
  "CR = CHR 0x0D"

definition isspace :: "char \<Rightarrow> bool" where
  "isspace c = (c \<in> set [CHR 0x09, CHR 0x0A, CHR 0x0B, CHR 0x0C, CHR 0x0D,
                          CHR 0x1C, CHR 0x1D, CHR 0x1E, CHR 0x1F, CHR 0x20,
                          CHR 0x85, CHR 0xA0])"

definition strip :: "string \<Rightarrow> string" where
  "strip s = rev (dropWhile isspace (rev (dropWhile isspace s)))"

definition startswith :: "string \<Rightarrow> string \<Rightarrow> bool" where
  "startswith s p = (take (length p) s = p)"

definition endswith :: "string \<Rightarrow> string \<Rightarrow> bool" where
  "endswith s p = (length p \<le> length s \<and> drop (length s - length p) s = p)"

text \<open>\<open>s.split(sep)\<close> for a separator of one character: never an empty list.\<close>

fun split :: "char \<Rightarrow> string \<Rightarrow> string list" where
  "split sep [] = [[]]"
| "split sep (c # cs) =
     (if c = sep then [] # split sep cs
      else (c # hd (split sep cs)) # tl (split sep cs))"

text \<open>\<open>sep.join(lines)\<close>.\<close>

fun join :: "string \<Rightarrow> string list \<Rightarrow> string" where
  "join sep [] = []"
| "join sep [l] = l"
| "join sep (l # l' # ls) = l @ sep @ join sep (l' # ls)"

subsection \<open>Integers as text\<close>

text \<open>
  The interpreter bounds the conversions between \<open>int\<close> and \<open>str\<close> in base 10:
  both raise \<open>ValueError\<close> when the number has more decimal digits than
  \<open>sys.get_int_max_str_digits()\<close>, which is 4300 unless it has been changed; the
  value 0 switches the bound off, and interpreters before 3.11 have none. The bound is
  the parameter \<open>max_str_digits\<close> of every function below that converts. (The
  interpreter lets it be set to 0 or to 640 and more; nothing below depends on that.)
\<close>

definition exceeds_limit :: "nat \<Rightarrow> nat \<Rightarrow> bool" where
  "exceeds_limit max_str_digits digits = (0 < max_str_digits \<and> max_str_digits < digits)"

text \<open>
  \<open>int(s)\<close> in base 10, on a string that \<open>str.strip()\<close> has already stripped (every
  call of the source is \<open>int(x.strip())\<close>, and \<open>int\<close> strips no more than
  \<open>strip\<close> does): an optional sign, then decimal digits, where one underscore may
  stand between two digits; the digits are counted, underscores and sign are not, and
  a count over the bound is refused. \<open>None\<close> is the \<open>ValueError\<close> of \<open>int\<close>.
\<close>

definition is_digit :: "char \<Rightarrow> bool" where
  "is_digit c = (c \<in> set ''0123456789'')"

definition digit_val :: "char \<Rightarrow> nat" where
  "digit_val c = of_char c - 48"

fun py_digits :: "nat \<Rightarrow> string \<Rightarrow> nat option" where
  "py_digits acc [] = Some acc"
| "py_digits acc [c] = (if is_digit c then Some (10 * acc + digit_val c) else None)"
| "py_digits acc (c # d # ds) =
     (if is_digit c then py_digits (10 * acc + digit_val c) (d # ds)
      else if c = CHR ''_'' \<and> is_digit d then py_digits (10 * acc + digit_val d) ds
      else None)"

definition py_nat :: "nat \<Rightarrow> string \<Rightarrow> nat option" where
  "py_nat max_str_digits s =
     (case s of [] \<Rightarrow> None
      | c # cs \<Rightarrow>
          if is_digit c then
            (case py_digits (digit_val c) cs of
               None \<Rightarrow> None
             | Some n \<Rightarrow>
                 if exceeds_limit max_str_digits (length (filter is_digit s)) then None
                 else Some n)
          else None)"

definition py_int :: "nat \<Rightarrow> string \<Rightarrow> int option" where
  "py_int max_str_digits s =
     (case s of [] \<Rightarrow> None
      | c # cs \<Rightarrow>
          if c = CHR ''-'' then map_option (\<lambda>n. - int n) (py_nat max_str_digits cs)
          else if c = CHR ''+'' then map_option int (py_nat max_str_digits cs)
          else map_option int (py_nat max_str_digits s))"

text \<open>
  The text an f-string gives for an integer: decimal, with \<open>-\<close> when negative
  (\<open>decimal\<close>), unless the integer has more digits than the bound allows, when the
  conversion raises (\<open>str_int\<close>).
\<close>

definition digit_char :: "nat \<Rightarrow> char" where
  "digit_char n = ''0123456789'' ! n"

fun nat_digits :: "nat \<Rightarrow> string" where
  "nat_digits n = (if n < 10 then [digit_char n] else nat_digits (n div 10) @ [digit_char (n mod 10)])"

declare nat_digits.simps [simp del]

definition decimal :: "int \<Rightarrow> string" where
  "decimal i = (if i < 0 then CHR ''-'' # nat_digits (nat (- i)) else nat_digits (nat i))"

definition str_int :: "nat \<Rightarrow> int \<Rightarrow> error + string" where
  "str_int max_str_digits i =
     (if exceeds_limit max_str_digits (length (nat_digits (nat \<bar>i\<bar>)))
      then Inl (ValueError ''Exceeds the limit for integer string conversion'')
      else Inr (decimal i))"

text \<open>An integer that the bound lets through, and a matrix all of whose integers are.\<close>

definition int_fits :: "nat \<Rightarrow> int \<Rightarrow> bool" where
  "int_fits max_str_digits i = (\<not> exceeds_limit max_str_digits (length (nat_digits (nat \<bar>i\<bar>))))"

definition fits :: "nat \<Rightarrow> SparseMatrix \<Rightarrow> bool" where
  "fits max_str_digits M =
     (int_fits max_str_digits (rows M) \<and> int_fits max_str_digits (cols M)
      \<and> list_all (\<lambda>((row, col), val). int_fits max_str_digits row
            \<and> int_fits max_str_digits col \<and> int_fits max_str_digits val) (data M))"

text \<open>The characters that the text of an integer is made of.\<close>

definition int_char :: "char \<Rightarrow> bool" where
  "int_char c = (c \<in> set ''-0123456789'')"

subsection \<open>Serialization\<close>

text \<open>
  \<open>sorted(self.data.items())\<close> sorts the items, tuples \<open>((row, col), val)\<close> of
  integers, in Python's tuple order, which is the lexicographic order of
  \<open>Product_Lexorder\<close>. Each f-string converts its integers from left to right, the
  lines are built in order, and the first conversion that raises ends \<open>to_string\<close>.
\<close>

definition format_entry :: "nat \<Rightarrow> coord \<times> int \<Rightarrow> error + string" where
  "format_entry max_str_digits = (\<lambda>((row, col), val).
     case str_int max_str_digits row of Inl e \<Rightarrow> Inl e | Inr r \<Rightarrow>
     case str_int max_str_digits col of Inl e \<Rightarrow> Inl e | Inr c \<Rightarrow>
     case str_int max_str_digits val of Inl e \<Rightarrow> Inl e | Inr v \<Rightarrow>
       Inr (''('' @ r @ '', '' @ c @ '', '' @ v @ '')''))"

fun format_entries :: "nat \<Rightarrow> (coord \<times> int) list \<Rightarrow> error + string list" where
  "format_entries max_str_digits [] = Inr []"
| "format_entries max_str_digits (e # es) =
     (case format_entry max_str_digits e of
        Inl x \<Rightarrow> Inl x
      | Inr l \<Rightarrow>
          (case format_entries max_str_digits es of
             Inl x \<Rightarrow> Inl x
           | Inr ls \<Rightarrow> Inr (l # ls)))"

definition to_string :: "nat \<Rightarrow> SparseMatrix \<Rightarrow> error + string" where
  "to_string max_str_digits M =
     (case str_int max_str_digits (rows M) of Inl e \<Rightarrow> Inl e | Inr r \<Rightarrow>
      case str_int max_str_digits (cols M) of Inl e \<Rightarrow> Inl e | Inr c \<Rightarrow>
      case format_entries max_str_digits (sort (data M)) of Inl e \<Rightarrow> Inl e | Inr ls \<Rightarrow>
        Inr (join [LF] ([''rows='' @ r, ''cols='' @ c] @ ls)))"

text \<open>
  The line of an entry and the text of a matrix when no conversion raises: what
  \<open>format_entry\<close> and \<open>to_string\<close> return then.
\<close>

definition entry_text :: "coord \<times> int \<Rightarrow> string" where
  "entry_text = (\<lambda>((row, col), val).
     ''('' @ decimal row @ '', '' @ decimal col @ '', '' @ decimal val @ '')'')"

definition serialized :: "SparseMatrix \<Rightarrow> string" where
  "serialized M =
     join [LF] ([''rows='' @ decimal (rows M), ''cols='' @ decimal (cols M)]
                @ map entry_text (sort (data M)))"

text \<open>Row-major order of coordinates: by row, then by column.\<close>

definition coord_le :: "coord \<Rightarrow> coord \<Rightarrow> bool" where
  "coord_le = (\<lambda>(r1, c1) (r2, c2). r1 < r2 \<or> (r1 = r2 \<and> c1 \<le> c2))"

subsection \<open>Loading\<close>

text \<open>
  A file system gives the text of the file at a path, or \<open>None\<close> when opening or
  reading it fails. \<open>open(file_path, 'r')\<close> reads in universal-newlines mode: a
  carriage return, alone or before a line feed, arrives as a line feed. Iterating over
  the file yields the lines, each with its line feed, the last one possibly without.
\<close>

type_synonym filesystem = "string \<Rightarrow> string option"

fun universal_newlines :: "string \<Rightarrow> string" where
  "universal_newlines [] = []"
| "universal_newlines [c] = (if c = CR then [LF] else [c])"
| "universal_newlines (c # d # ds) =
     (if c = CR \<and> d = LF then LF # universal_newlines ds
      else if c = CR then LF # universal_newlines (d # ds)
      else c # universal_newlines (d # ds))"

fun file_lines :: "string \<Rightarrow> string list" where
  "file_lines [] = []"
| "file_lines (c # cs) =
     (if c = LF then [c] # file_lines cs
      else (case file_lines cs of [] \<Rightarrow> [[c]] | l # ls \<Rightarrow> (c # l) # ls))"

text \<open>
  The body of the loop of \<open>load_from_file\<close> on one line, with \<open>self\<close> as the
  state. \<open>line[1:-1]\<close> drops the first and the last character. An exception leaves
  the loop; which one it is matters only until the handler.
\<close>

definition load_line :: "nat \<Rightarrow> SparseMatrix \<Rightarrow> string \<Rightarrow> error + SparseMatrix" where
  "load_line max_str_digits self raw =
     (let line = strip raw in
      if line = [] then Inr self
      else if startswith line ''rows='' then
        (case split (CHR ''='') line of
           _ # p # _ \<Rightarrow>
             (case py_int max_str_digits (strip p) of
                None \<Rightarrow> Inl (ValueError ''invalid literal for int() with base 10'')
              | Some n \<Rightarrow> Inr (self\<lparr>rows := n\<rparr>))
         | _ \<Rightarrow> Inl IndexError)
      else if startswith line ''cols='' then
        (case split (CHR ''='') line of
           _ # p # _ \<Rightarrow>
             (case py_int max_str_digits (strip p) of
                None \<Rightarrow> Inl (ValueError ''invalid literal for int() with base 10'')
              | Some n \<Rightarrow> Inr (self\<lparr>cols := n\<rparr>))
         | _ \<Rightarrow> Inl IndexError)
      else if startswith line ''('' \<and> endswith line '')'' then
        (let parts = split (CHR '','') (butlast (tl line)) in
         if length parts \<noteq> 3 then Inl (ValueError ''Invalid entry format'')
         else
           (case py_int max_str_digits (strip (parts ! 0)) of
              None \<Rightarrow> Inl (ValueError ''invalid literal for int() with base 10'')
            | Some row \<Rightarrow>
           (case py_int max_str_digits (strip (parts ! 1)) of
              None \<Rightarrow> Inl (ValueError ''invalid literal for int() with base 10'')
            | Some col \<Rightarrow>
           (case py_int max_str_digits (strip (parts ! 2)) of
              None \<Rightarrow> Inl (ValueError ''invalid literal for int() with base 10'')
            | Some val \<Rightarrow> Inr (self\<lparr>data := AList.update (row, col) val (data self)\<rparr>)))))
      else Inl (ValueError ''Input file has wrong format''))"

text \<open>The loop: the first exception ends it.\<close>

fun load_lines :: "nat \<Rightarrow> SparseMatrix \<Rightarrow> string list \<Rightarrow> error + SparseMatrix" where
  "load_lines max_str_digits self [] = Inr self"
| "load_lines max_str_digits self (l # ls) =
     (case load_line max_str_digits self l of
        Inl e \<Rightarrow> Inl e
      | Inr self' \<Rightarrow> load_lines max_str_digits self' ls)"

text \<open>
  \<open>load_from_file\<close>: the \<open>try\<close> block, and the handler that turns every exception
  into the one \<open>ValueError\<close>.
\<close>

definition load_from_file ::
  "nat \<Rightarrow> filesystem \<Rightarrow> SparseMatrix \<Rightarrow> string \<Rightarrow> error + SparseMatrix" where
  "load_from_file max_str_digits fs self file_path =
     (case (case fs file_path of
              None \<Rightarrow> Inl OSError
            | Some text \<Rightarrow>
                load_lines max_str_digits self (file_lines (universal_newlines text))) of
        Inl e \<Rightarrow> Inl (ValueError ''Input file has wrong format'')
      | Inr self' \<Rightarrow> Inr self')"

text \<open>
  The constructor \<open>SparseMatrix(file_path, rows, cols)\<close>. \<open>if file_path:\<close> is false
  for \<open>None\<close> and for the empty string. When the load raises, so does the constructor,
  and no matrix is returned.
\<close>

definition SparseMatrix_init ::
  "nat \<Rightarrow> filesystem \<Rightarrow> string option \<Rightarrow> int \<Rightarrow> int \<Rightarrow> error + SparseMatrix" where
  "SparseMatrix_init max_str_digits fs file_path r c =
     (let self = \<lparr>rows = r, cols = c, data = []\<rparr> in
      case file_path of
        None \<Rightarrow> Inr self
      | Some p \<Rightarrow> if p = [] then Inr self else load_from_file max_str_digits fs self p)"

subsection \<open>The grammar of the format\<close>

text \<open>
  The grammar in the specification's words. A blank line is skipped. An entry line is
  delimited by parentheses, its interior splits on commas into exactly three fields,
  and each field, trimmed, parses as an integer; \<open>parse_entry\<close> gives the entry it
  denotes. With the bound 0 the integer may be of any length, and \<open>valid_line 0\<close> is
  the syntax alone.
\<close>

definition parse_entry :: "nat \<Rightarrow> string \<Rightarrow> (coord \<times> int) option" where
  "parse_entry max_str_digits raw =
     (let line = strip raw; fields = split (CHR '','') (butlast (tl line)) in
      if startswith line ''('' \<and> endswith line '')'' \<and> length fields = 3 then
        (case py_int max_str_digits (strip (fields ! 0)) of
           None \<Rightarrow> None
         | Some row \<Rightarrow>
        (case py_int max_str_digits (strip (fields ! 1)) of
           None \<Rightarrow> None
         | Some col \<Rightarrow>
        (case py_int max_str_digits (strip (fields ! 2)) of
           None \<Rightarrow> None
         | Some val \<Rightarrow> Some ((row, col), val))))
      else None)"

definition valid_line :: "nat \<Rightarrow> string \<Rightarrow> bool" where
  "valid_line max_str_digits raw = (strip raw = [] \<or> parse_entry max_str_digits raw \<noteq> None)"

text \<open>
  An entry line of the grammar whose third field is \<open>1\<close> followed by \<open>k\<close> zeros:
  an integer of \<open>k + 1\<close> digits.
\<close>

definition long_entry_line :: "nat \<Rightarrow> string" where
  "long_entry_line k = ''(0, 0, 1'' @ replicate k (CHR ''0'') @ '')''"

section \<open>Objects and references\<close>

text \<open>
  Whether an operation changes its operands or shares storage with them is a question
  about objects, so the three operations are also given over a store. An object lives
  at a reference. A \<open>SparseMatrix\<close> object holds \<open>rows\<close>, \<open>cols\<close> and, in
  \<open>data\<close>, the reference of a dictionary object; \<open>fresh\<close> is the next reference
  that has not been handed out, and \<open>allocated\<close> says that an object and its
  dictionary exist.
  \<^item> \<open>SparseMatrix(rows=r, cols=c)\<close> makes a new object and a new empty dictionary
    (\<open>heap_new\<close>);
  \<^item> \<open>result.data = self.data.copy()\<close> makes a new dictionary with the items of
    \<open>self.data\<close> and stores its reference in \<open>result\<close> (\<open>heap_copy_data\<close>);
  \<^item> \<open>set_element\<close> writes to the dictionary that the object refers to;
  \<^item> a loop over \<open>d.items()\<close> runs over the items that \<open>d\<close> holds when the loop
    starts; the loops write to the dictionary of \<open>result\<close> alone, which is never
    \<open>d\<close> (\<open>private_result\<close> below), so the items do not change under the loop.
\<close>

type_synonym ref = nat

record matrix_obj =
  rows_attr :: int
  cols_attr :: int
  data_attr :: ref

record heap =
  objs :: "ref \<Rightarrow> matrix_obj"
  dicts :: "ref \<Rightarrow> dict"
  fresh :: ref

definition allocated :: "heap \<Rightarrow> ref \<Rightarrow> bool" where
  "allocated h self = (self < fresh h \<and> data_attr (objs h self) < fresh h)"

definition heap_new :: "heap \<Rightarrow> int \<Rightarrow> int \<Rightarrow> heap \<times> ref" where
  "heap_new h r c =
     (let self = fresh h; d = Suc (fresh h)
      in (h\<lparr>objs := (objs h)(self := \<lparr>rows_attr = r, cols_attr = c, data_attr = d\<rparr>),
            dicts := (dicts h)(d := []),
            fresh := Suc d\<rparr>, self))"

definition heap_copy_data :: "heap \<Rightarrow> ref \<Rightarrow> ref \<Rightarrow> heap" where
  "heap_copy_data h result self =
     (let d = fresh h
      in h\<lparr>dicts := (dicts h)(d := dicts h (data_attr (objs h self))),
           objs := (objs h)(result := (objs h result)\<lparr>data_attr := d\<rparr>),
           fresh := Suc d\<rparr>)"

definition heap_get_element :: "heap \<Rightarrow> ref \<Rightarrow> int \<Rightarrow> int \<Rightarrow> int" where
  "heap_get_element h self row col =
     (case map_of (dicts h (data_attr (objs h self))) (row, col) of None \<Rightarrow> 0 | Some v \<Rightarrow> v)"

definition heap_set_element :: "heap \<Rightarrow> ref \<Rightarrow> int \<Rightarrow> int \<Rightarrow> int \<Rightarrow> heap" where
  "heap_set_element h self row col val =
     (let d = data_attr (objs h self) in
      if val \<noteq> 0 then h\<lparr>dicts := (dicts h)(d := AList.update (row, col) val (dicts h d))\<rparr>
      else if (row, col) \<in> fst ` set (dicts h d)
      then h\<lparr>dicts := (dicts h)(d := AList.delete (row, col) (dicts h d))\<rparr>
      else h)"

definition heap_add_step :: "ref \<Rightarrow> coord \<times> int \<Rightarrow> heap \<Rightarrow> heap" where
  "heap_add_step result = (\<lambda>((row, col), val) h.
     heap_set_element h result row col (heap_get_element h result row col + val))"

definition heap_subtract_step :: "ref \<Rightarrow> coord \<times> int \<Rightarrow> heap \<Rightarrow> heap" where
  "heap_subtract_step result = (\<lambda>((row, col), val) h.
     heap_set_element h result row col (heap_get_element h result row col - val))"

definition heap_add :: "heap \<Rightarrow> ref \<Rightarrow> ref \<Rightarrow> heap \<times> (error + ref)" where
  "heap_add h self other =
     (if rows_attr (objs h self) \<noteq> rows_attr (objs h other)
         \<or> cols_attr (objs h self) \<noteq> cols_attr (objs h other)
      then (h, Inl (ValueError ''Matrix dimensions must match for addition''))
      else
        (let (h1, result) = heap_new h (rows_attr (objs h self)) (cols_attr (objs h self));
             h2 = heap_copy_data h1 result self;
             h3 = fold (heap_add_step result) (dicts h2 (data_attr (objs h2 other))) h2
         in (h3, Inr result)))"

definition heap_subtract :: "heap \<Rightarrow> ref \<Rightarrow> ref \<Rightarrow> heap \<times> (error + ref)" where
  "heap_subtract h self other =
     (if rows_attr (objs h self) \<noteq> rows_attr (objs h other)
         \<or> cols_attr (objs h self) \<noteq> cols_attr (objs h other)
      then (h, Inl (ValueError ''Matrix dimensions must match for subtraction''))
      else
        (let (h1, result) = heap_new h (rows_attr (objs h self)) (cols_attr (objs h self));
             h2 = heap_copy_data h1 result self;
             h3 = fold (heap_subtract_step result) (dicts h2 (data_attr (objs h2 other))) h2
         in (h3, Inr result)))"

definition heap_multiply_inner :: "ref \<Rightarrow> ref \<Rightarrow> int \<Rightarrow> int \<Rightarrow> int \<Rightarrow> int \<Rightarrow> heap \<Rightarrow> heap" where
  "heap_multiply_inner result other r1 c1 v1 c2 h =
     (let v2 = heap_get_element h other c1 c2 in
      if v2 \<noteq> 0
      then (let current_val = heap_get_element h result r1 c2
            in heap_set_element h result r1 c2 (current_val + v1 * v2))
      else h)"

definition heap_multiply_step :: "ref \<Rightarrow> ref \<Rightarrow> coord \<times> int \<Rightarrow> heap \<Rightarrow> heap" where
  "heap_multiply_step result other = (\<lambda>((r1, c1), v1) h.
     fold (heap_multiply_inner result other r1 c1 v1) (py_range (cols_attr (objs h other))) h)"

definition heap_multiply :: "heap \<Rightarrow> ref \<Rightarrow> ref \<Rightarrow> heap \<times> (error + ref)" where
  "heap_multiply h self other =
     (if cols_attr (objs h self) \<noteq> rows_attr (objs h other)
      then (h, Inl (ValueError ''Matrix dimensions do not allow multiplication''))
      else
        (let (h1, result) = heap_new h (rows_attr (objs h self)) (cols_attr (objs h other));
             h2 = fold (heap_multiply_step result other) (dicts h1 (data_attr (objs h1 self))) h1
         in (h2, Inr result)))"

text \<open>The matrix that an object stands for in a store, and the outcome of an operation.\<close>

definition matrix_at :: "heap \<Rightarrow> ref \<Rightarrow> SparseMatrix" where
  "matrix_at h self =
     \<lparr>rows = rows_attr (objs h self), cols = cols_attr (objs h self),
      data = dicts h (data_attr (objs h self))\<rparr>"

definition result_at :: "heap \<times> (error + ref) \<Rightarrow> error + SparseMatrix" where
  "result_at out = (case out of (h', res) \<Rightarrow> map_sum id (matrix_at h') res)"

text \<open>
  What an operation owes its operands: both objects and both dictionaries are as they
  were; when it raises, the store is as it was; when it returns, the result is a new
  object whose dictionary is neither operand's dictionary.
\<close>

definition operands_kept :: "heap \<Rightarrow> ref \<Rightarrow> ref \<Rightarrow> heap \<times> (error + ref) \<Rightarrow> bool" where
  "operands_kept h self other out =
     (case out of (h', res) \<Rightarrow>
        objs h' self = objs h self \<and> objs h' other = objs h other
        \<and> dicts h' (data_attr (objs h self)) = dicts h (data_attr (objs h self))
        \<and> dicts h' (data_attr (objs h other)) = dicts h (data_attr (objs h other))
        \<and> (case res of
              Inl e \<Rightarrow> h' = h
            | Inr result \<Rightarrow>
                result \<noteq> self \<and> result \<noteq> other
                \<and> data_attr (objs h' result) \<noteq> data_attr (objs h' self)
                \<and> data_attr (objs h' result) \<noteq> data_attr (objs h' other)))"

text \<open>
  The invariant of the loops: everything allocated in the store \<open>h\<close> the operation
  started from is unchanged, and the dictionary of \<open>result\<close> was allocated later.
\<close>

definition private_result :: "heap \<Rightarrow> ref \<Rightarrow> heap \<Rightarrow> bool" where
  "private_result h result h' =
     (list_all (\<lambda>r. objs h' r = objs h r \<and> dicts h' r = dicts h r) [0..<fresh h]
      \<and> fresh h \<le> data_attr (objs h' result))"

section \<open>Accessors\<close>

lemma get_set_element:
  "get_element (set_element M row col val) r c =
     (if (r, c) = (row, col) then val else get_element M r c)"
  by (auto simp: get_element_def set_element_def AList.update_conv' AList.delete_conv'
      split: option.splits dest: map_of_SomeD intro: rev_image_eqI)

lemma rows_set_element [simp]: "rows (set_element M row col val) = rows M"
  by (simp add: set_element_def)

lemma cols_set_element [simp]: "cols (set_element M row col val) = cols M"
  by (simp add: set_element_def)

lemma wf_dict_set_element:
  "wf_dict (data M) \<Longrightarrow> wf_dict (data (set_element M row col val))"
  by (simp add: wf_dict_def set_element_def AList.distinct_update AList.distinct_delete)

lemma no_zero_update: "no_zero d \<Longrightarrow> v \<noteq> 0 \<Longrightarrow> no_zero (AList.update k v d)"
  by (induction d) (auto simp: no_zero_def)

lemma no_zero_delete: "no_zero d \<Longrightarrow> no_zero (AList.delete k d)"
  by (auto simp: no_zero_def AList.delete_eq)

lemma no_zero_set_element:
  "no_zero (data M) \<Longrightarrow> no_zero (data (set_element M row col val))"
  by (simp add: set_element_def no_zero_update no_zero_delete)

lemma no_zero_set_elements:
  "no_zero (data M) \<Longrightarrow> no_zero (data (set_elements M calls))"
  by (induction M calls rule: set_elements.induct) (simp_all add: no_zero_set_element)

lemma nonzero_entries_iff:
  assumes "wf_dict (data M)"
  shows "((r, c), v) \<in> nonzero_entries M \<longleftrightarrow> v \<noteq> 0 \<and> get_element M r c = v"
proof -
  from assms have "((r, c), v) \<in> set (data M) \<longleftrightarrow> map_of (data M) (r, c) = Some v"
    by (simp add: wf_dict_def)
  then show ?thesis
    by (cases "map_of (data M) (r, c)") (auto simp: nonzero_entries_def get_element_def)
qed

lemma nonzero_entries_eqI:
  assumes "wf_dict (data M)" and "wf_dict (data N)"
    and "\<And>r c. get_element M r c = get_element N r c"
  shows "nonzero_entries M = nonzero_entries N"
proof (rule set_eqI)
  fix x :: "coord \<times> int"
  obtain r c v where "x = ((r, c), v)"
    by (metis surj_pair)
  with assms show "x \<in> nonzero_entries M \<longleftrightarrow> x \<in> nonzero_entries N"
    by (simp add: nonzero_entries_iff)
qed

section \<open>Addition and subtraction\<close>

lemma rows_fold_add_step [simp]: "rows (fold add_step items R) = rows R"
  by (induction items arbitrary: R) (simp_all add: add_step_def split: prod.splits)

lemma cols_fold_add_step [simp]: "cols (fold add_step items R) = cols R"
  by (induction items arbitrary: R) (simp_all add: add_step_def split: prod.splits)

lemma rows_fold_subtract_step [simp]: "rows (fold subtract_step items R) = rows R"
  by (induction items arbitrary: R) (simp_all add: subtract_step_def split: prod.splits)

lemma cols_fold_subtract_step [simp]: "cols (fold subtract_step items R) = cols R"
  by (induction items arbitrary: R) (simp_all add: subtract_step_def split: prod.splits)

lemma wf_dict_fold_add_step:
  "wf_dict (data R) \<Longrightarrow> wf_dict (data (fold add_step items R))"
  by (induction items arbitrary: R)
     (simp_all add: add_step_def wf_dict_set_element split: prod.splits)

lemma wf_dict_fold_subtract_step:
  "wf_dict (data R) \<Longrightarrow> wf_dict (data (fold subtract_step items R))"
  by (induction items arbitrary: R)
     (simp_all add: subtract_step_def wf_dict_set_element split: prod.splits)

text \<open>
  What the loop of \<open>add\<close> leaves at a coordinate: the value it found there plus the
  value the items hold for it. The keys of the items are distinct, so a coordinate is
  visited at most once.
\<close>

lemma get_fold_add_step:
  "distinct (map fst items) \<Longrightarrow>
   get_element (fold add_step items R) r c =
     get_element R r c + (case map_of items (r, c) of None \<Rightarrow> 0 | Some v \<Rightarrow> v)"
proof (induction items arbitrary: R)
  case Nil
  show ?case by simp
next
  case (Cons x items)
  obtain row col val where x: "x = ((row, col), val)"
    by (metis surj_pair)
  from Cons.prems x have fresh: "map_of items (row, col) = None"
    by (simp add: map_of_eq_None_iff)
  from Cons.prems have "distinct (map fst items)"
    by simp
  from Cons.IH [OF this] fresh show ?case
    by (simp add: x add_step_def get_set_element)
qed

lemma get_fold_subtract_step:
  "distinct (map fst items) \<Longrightarrow>
   get_element (fold subtract_step items R) r c =
     get_element R r c - (case map_of items (r, c) of None \<Rightarrow> 0 | Some v \<Rightarrow> v)"
proof (induction items arbitrary: R)
  case Nil
  show ?case by simp
next
  case (Cons x items)
  obtain row col val where x: "x = ((row, col), val)"
    by (metis surj_pair)
  from Cons.prems x have fresh: "map_of items (row, col) = None"
    by (simp add: map_of_eq_None_iff)
  from Cons.prems have "distinct (map fst items)"
    by simp
  from Cons.IH [OF this] fresh show ?case
    by (simp add: x subtract_step_def get_set_element)
qed

lemma get_element_data [simp]:
  "get_element (M\<lparr>data := d\<rparr>) r c = (case map_of d (r, c) of None \<Rightarrow> 0 | Some v \<Rightarrow> v)"
  by (simp add: get_element_def)

text \<open>
  C1. \<open>add\<close> raises its dimension error (the \<open>ValueError\<close> that the specification
  calls DimensionMismatch) exactly when the row counts or the column counts differ, and
  so does \<open>subtract\<close>. When the dimensions agree, each returns a matrix with the
  dimensions of the left operand whose value at every coordinate, read with
  \<open>get_element\<close> (0 when absent), is the sum, respectively the difference, of the
  operands' values there. The operands are Python dictionaries, so their keys are distinct.
\<close>

theorem add_subtract_values:
  assumes "wf_dict (data A)" and "wf_dict (data B)"
  shows "(add A B = Inl (ValueError ''Matrix dimensions must match for addition'')
            \<longleftrightarrow> rows A \<noteq> rows B \<or> cols A \<noteq> cols B)
       \<and> (subtract A B = Inl (ValueError ''Matrix dimensions must match for subtraction'')
            \<longleftrightarrow> rows A \<noteq> rows B \<or> cols A \<noteq> cols B)
       \<and> (rows A = rows B \<and> cols A = cols B \<longrightarrow>
            (\<exists>R. add A B = Inr R \<and> rows R = rows A \<and> cols R = cols A
               \<and> (\<forall>r c. get_element R r c = get_element A r c + get_element B r c))
          \<and> (\<exists>R. subtract A B = Inr R \<and> rows R = rows A \<and> cols R = cols A
               \<and> (\<forall>r c. get_element R r c = get_element A r c - get_element B r c)))"
proof -
  from assms(2) have d: "distinct (map fst (data B))"
    by (simp add: wf_dict_def)
  have "add A B = Inl (ValueError ''Matrix dimensions must match for addition'')
          \<longleftrightarrow> rows A \<noteq> rows B \<or> cols A \<noteq> cols B"
    by (simp add: add_def)
  moreover have "subtract A B = Inl (ValueError ''Matrix dimensions must match for subtraction'')
          \<longleftrightarrow> rows A \<noteq> rows B \<or> cols A \<noteq> cols B"
    by (simp add: subtract_def)
  moreover have "\<exists>R. add A B = Inr R \<and> rows R = rows A \<and> cols R = cols A
               \<and> (\<forall>r c. get_element R r c = get_element A r c + get_element B r c)"
    if "rows A = rows B \<and> cols A = cols B"
    using that get_fold_add_step [OF d]
    by (simp add: add_def SparseMatrix_empty_def) (simp add: get_element_def)
  moreover have "\<exists>R. subtract A B = Inr R \<and> rows R = rows A \<and> cols R = cols A
               \<and> (\<forall>r c. get_element R r c = get_element A r c - get_element B r c)"
    if "rows A = rows B \<and> cols A = cols B"
    using that get_fold_subtract_step [OF d]
    by (simp add: subtract_def SparseMatrix_empty_def) (simp add: get_element_def)
  ultimately show ?thesis
    by blast
qed

theorem add_subtract_values_witness:
  "wf_dict (data \<lparr>rows = 2, cols = 2, data = [((0, 0), 1), ((1, 1), 2)]\<rparr>)
   \<and> wf_dict (data \<lparr>rows = 2, cols = 2, data = [((0, 0), - 1), ((0, 1), 4)]\<rparr>)
   \<and> add \<lparr>rows = 2, cols = 2, data = [((0, 0), 1), ((1, 1), 2)]\<rparr>
         \<lparr>rows = 2, cols = 2, data = [((0, 0), - 1), ((0, 1), 4)]\<rparr>
       = Inr \<lparr>rows = 2, cols = 2, data = [((1, 1), 2), ((0, 1), 4)]\<rparr>
   \<and> subtract \<lparr>rows = 2, cols = 2, data = [((0, 0), 1), ((1, 1), 2)]\<rparr>
         \<lparr>rows = 2, cols = 2, data = [((0, 0), - 1), ((0, 1), 4)]\<rparr>
       = Inr \<lparr>rows = 2, cols = 2, data = [((0, 0), 2), ((1, 1), 2), ((0, 1), - 4)]\<rparr>"
  using add_subtract_values
    [of "\<lparr>rows = 2, cols = 2, data = [((0, 0), 1), ((1, 1), 2)]\<rparr>"
        "\<lparr>rows = 2, cols = 2, data = [((0, 0), - 1), ((0, 1), 4)]\<rparr>"]
  by (simp add: wf_dict_def add_def subtract_def add_step_def subtract_step_def
      set_element_def get_element_def SparseMatrix_empty_def)

text \<open>
  C7. For operands of equal dimensions, adding \<open>B\<close> to \<open>A\<close> and subtracting
  \<open>B\<close> from the sum succeeds and gives a matrix with the dimensions of \<open>A\<close>, the same
  value at every coordinate and the same set of non-zero entries. Python integers are
  exact, so no overflow arises.
\<close>

theorem add_then_subtract:
  assumes "wf_dict (data A)" and "wf_dict (data B)"
    and "rows A = rows B" and "cols A = cols B"
  shows "\<exists>R S. add A B = Inr R \<and> subtract R B = Inr S
           \<and> rows S = rows A \<and> cols S = cols A
           \<and> nonzero_entries S = nonzero_entries A
           \<and> (\<forall>r c. get_element S r c = get_element A r c)"
proof -
  from assms(2) have d: "distinct (map fst (data B))"
    by (simp add: wf_dict_def)
  define R where
    "R = fold add_step (data B) ((SparseMatrix_empty (rows A) (cols A))\<lparr>data := data A\<rparr>)"
  define S where
    "S = fold subtract_step (data B) ((SparseMatrix_empty (rows R) (cols R))\<lparr>data := data R\<rparr>)"
  have R: "add A B = Inr R"
    using assms(3,4) by (simp add: add_def R_def)
  have dims_R: "rows R = rows A" "cols R = cols A"
    by (simp_all add: R_def SparseMatrix_empty_def)
  have S: "subtract R B = Inr S"
    using assms(3,4) dims_R by (simp add: subtract_def S_def)
  have dims_S: "rows S = rows A" "cols S = cols A"
    by (simp_all add: S_def dims_R SparseMatrix_empty_def)
  have "wf_dict (data R)"
    unfolding R_def using assms(1) by (intro wf_dict_fold_add_step) simp
  then have wf_S: "wf_dict (data S)"
    unfolding S_def by (intro wf_dict_fold_subtract_step) simp
  have get_R: "get_element R r c = get_element A r c + get_element B r c" for r c
    unfolding R_def get_fold_add_step [OF d] by (simp add: get_element_def)
  have get_S: "get_element S r c = get_element A r c" for r c
    unfolding S_def get_fold_subtract_step [OF d] using get_R [of r c]
    by (simp add: get_element_def)
  from wf_S assms(1) get_S have "nonzero_entries S = nonzero_entries A"
    by (rule nonzero_entries_eqI)
  with R S dims_S get_S show ?thesis
    by blast
qed

theorem add_then_subtract_witness:
  "wf_dict (data \<lparr>rows = 2, cols = 2, data = [((0, 0), 1), ((1, 1), 2)]\<rparr>)
   \<and> wf_dict (data \<lparr>rows = 2, cols = 2, data = [((0, 0), - 1), ((0, 1), 4)]\<rparr>)
   \<and> add \<lparr>rows = 2, cols = 2, data = [((0, 0), 1), ((1, 1), 2)]\<rparr>
         \<lparr>rows = 2, cols = 2, data = [((0, 0), - 1), ((0, 1), 4)]\<rparr>
       = Inr \<lparr>rows = 2, cols = 2, data = [((1, 1), 2), ((0, 1), 4)]\<rparr>
   \<and> subtract \<lparr>rows = 2, cols = 2, data = [((1, 1), 2), ((0, 1), 4)]\<rparr>
         \<lparr>rows = 2, cols = 2, data = [((0, 0), - 1), ((0, 1), 4)]\<rparr>
       = Inr \<lparr>rows = 2, cols = 2, data = [((1, 1), 2), ((0, 0), 1)]\<rparr>
   \<and> nonzero_entries \<lparr>rows = 2, cols = 2, data = [((1, 1), 2), ((0, 0), 1)]\<rparr>
       = nonzero_entries \<lparr>rows = 2, cols = 2, data = [((0, 0), 1), ((1, 1), 2)]\<rparr>"
  using add_then_subtract
    [of "\<lparr>rows = 2, cols = 2, data = [((0, 0), 1), ((1, 1), 2)]\<rparr>"
        "\<lparr>rows = 2, cols = 2, data = [((0, 0), - 1), ((0, 1), 4)]\<rparr>"]
  by (auto simp add: wf_dict_def add_def subtract_def add_step_def subtract_step_def
      set_element_def get_element_def SparseMatrix_empty_def nonzero_entries_def)

section \<open>The invariant of \<open>set_element\<close>\<close>

text \<open>
  C6. A matrix that stores no zero stores none after any finite sequence of
  \<open>set_element\<close> calls with arbitrary integer arguments. A call with a non-zero
  value inserts or overwrites the entry and leaves every other coordinate as it was; a
  call with the value 0 removes the entry, and changes nothing when the coordinate is
  absent.
\<close>

theorem set_element_no_zero:
  assumes "no_zero (data M)"
  shows "no_zero (data (set_elements M calls))
       \<and> (\<forall>row col val. val \<noteq> 0 \<longrightarrow>
            map_of (data (set_element M row col val)) = (map_of (data M))((row, col) \<mapsto> val))
       \<and> (\<forall>row col.
            map_of (data (set_element M row col 0)) = (map_of (data M))((row, col) := None))
       \<and> (\<forall>row col. (row, col) \<notin> fst ` set (data M) \<longrightarrow> set_element M row col 0 = M)"
proof -
  have "map_of (data (set_element M row col 0)) = (map_of (data M))((row, col) := None)"
    for row col
    by (auto simp: set_element_def AList.delete_conv' map_of_eq_None_iff)
  with assms show ?thesis
    by (simp add: no_zero_set_elements) (simp add: set_element_def AList.update_conv')
qed

theorem set_element_no_zero_witness:
  "no_zero (data (SparseMatrix_empty 2 2))
   \<and> no_zero (data (set_elements (SparseMatrix_empty 2 2)
        [(0, 0, 5), (0, 1, 0), (1, 1, 3), (0, 0, 0), (1, 1, 4)]))
   \<and> set_elements (SparseMatrix_empty 2 2)
        [(0, 0, 5), (0, 1, 0), (1, 1, 3), (0, 0, 0), (1, 1, 4)]
       = \<lparr>rows = 2, cols = 2, data = [((1, 1), 4)]\<rparr>
   \<and> set_element (SparseMatrix_empty 2 2) 0 1 0 = SparseMatrix_empty 2 2"
  using set_element_no_zero [of "SparseMatrix_empty 2 2"
      "[(0, 0, 5), (0, 1, 0), (1, 1, 3), (0, 0, 0), (1, 1, 4)]"]
  by (simp add: no_zero_def SparseMatrix_empty_def set_element_def)

section \<open>Multiplication\<close>

lemma rows_multiply_inner [simp]: "rows (multiply_inner other r1 c1 v1 c2 R) = rows R"
  by (simp add: multiply_inner_def Let_def)

lemma cols_multiply_inner [simp]: "cols (multiply_inner other r1 c1 v1 c2 R) = cols R"
  by (simp add: multiply_inner_def Let_def)

lemma rows_fold_multiply_inner [simp]:
  "rows (fold (multiply_inner other r1 c1 v1) cs R) = rows R"
  by (induction cs arbitrary: R) simp_all

lemma cols_fold_multiply_inner [simp]:
  "cols (fold (multiply_inner other r1 c1 v1) cs R) = cols R"
  by (induction cs arbitrary: R) simp_all

lemma rows_fold_multiply_step [simp]: "rows (fold (multiply_step other) items R) = rows R"
  by (induction items arbitrary: R) (simp_all add: multiply_step_def split: prod.splits)

lemma cols_fold_multiply_step [simp]: "cols (fold (multiply_step other) items R) = cols R"
  by (induction items arbitrary: R) (simp_all add: multiply_step_def split: prod.splits)

lemma get_multiply_inner:
  "get_element (multiply_inner other r1 c1 v1 c2 R) r c =
     get_element R r c + (if r = r1 \<and> c = c2 then v1 * get_element other c1 c2 else 0)"
  by (simp add: multiply_inner_def Let_def get_set_element)

lemma get_fold_multiply_inner:
  "distinct cs \<Longrightarrow>
   get_element (fold (multiply_inner other r1 c1 v1) cs R) r c =
     get_element R r c + (if r = r1 \<and> c \<in> set cs then v1 * get_element other c1 c else 0)"
  by (induction cs arbitrary: R) (auto simp: get_multiply_inner)

lemma get_multiply_step:
  "get_element (multiply_step other ((r1, c1), v1) R) r c =
     get_element R r c +
       (if r = r1 \<and> 0 \<le> c \<and> c < cols other then v1 * get_element other c1 c else 0)"
  by (auto simp add: multiply_step_def py_range_def get_fold_multiply_inner)

lemma get_fold_multiply_step:
  "get_element (fold (multiply_step other) items R) r c =
     get_element R r c +
       (\<Sum>((r1, c1), v1)\<leftarrow>items.
          if r = r1 \<and> 0 \<le> c \<and> c < cols other then v1 * get_element other c1 c else 0)"
proof (induction items arbitrary: R)
  case Nil
  show ?case by simp
next
  case (Cons x items)
  obtain r1 c1 v1 where x: "x = ((r1, c1), v1)"
    by (metis surj_pair)
  show ?case
    by (simp add: x Cons.IH get_multiply_step)
qed

text \<open>
  Over a dictionary with distinct keys, the sum over the items of row \<open>r\<close> is the
  sum over any finite set of columns that covers the row.
\<close>

lemma row_sum_items:
  fixes items :: dict
  assumes "distinct (map fst items)" and "finite K"
    and "\<forall>((r1, c1), v1)\<in>set items. r1 = r \<longrightarrow> c1 \<in> K"
  shows "(\<Sum>((r1, c1), v1)\<leftarrow>items. if r = r1 then v1 * g c1 else 0) =
         (\<Sum>k\<in>K. (case map_of items (r, k) of None \<Rightarrow> 0 | Some v \<Rightarrow> v) * g k)"
  using assms(1,3)
proof (induction items)
  case Nil
  show ?case by simp
next
  case (Cons x items)
  obtain r1 c1 v1 where x: "x = ((r1, c1), v1)"
    by (metis surj_pair)
  from Cons.prems x have fresh: "map_of items (r1, c1) = None"
    by (simp add: map_of_eq_None_iff)
  from Cons.prems have IH: "(\<Sum>((r1, c1), v1)\<leftarrow>items. if r = r1 then v1 * g c1 else 0) =
         (\<Sum>k\<in>K. (case map_of items (r, k) of None \<Rightarrow> 0 | Some v \<Rightarrow> v) * g k)"
    by (intro Cons.IH) auto
  show ?case
  proof (cases "r = r1")
    case False
    then show ?thesis
      by (simp add: x IH)
  next
    case True
    with Cons.prems x have c1: "c1 \<in> K"
      by simp
    let ?h = "\<lambda>k. (case map_of items (r, k) of None \<Rightarrow> 0 | Some v \<Rightarrow> v) * g k"
    let ?h' = "\<lambda>k. (case map_of (x # items) (r, k) of None \<Rightarrow> 0 | Some v \<Rightarrow> v) * g k"
    have "sum ?h' K = ?h' c1 + sum ?h' (K - {c1})"
      using assms(2) c1 by (rule sum.remove)
    also have "?h' c1 = v1 * g c1"
      by (simp add: x True)
    also have "sum ?h' (K - {c1}) = sum ?h (K - {c1})"
      by (rule sum.cong) (auto simp: x True)
    also have "sum ?h (K - {c1}) = ?h c1 + sum ?h (K - {c1})"
      using fresh True by simp
    also have "\<dots> = sum ?h K"
      using assms(2) c1 by (rule sum.remove [symmetric])
    finally have "sum ?h' K = v1 * g c1 + sum ?h K" .
    with IH show ?thesis
      by (simp add: x True)
  qed
qed


lemma dense_row_sum:
  assumes "wf_dict (data A)" and "in_bounds A"
  shows "(\<Sum>((r1, c1), v1)\<leftarrow>data A. if r = r1 then v1 * g c1 else 0) =
         (\<Sum>k\<leftarrow>py_range (cols A). get_element A r k * g k)"
proof -
  have "(\<Sum>((r1, c1), v1)\<leftarrow>data A. if r = r1 then v1 * g c1 else 0) =
         (\<Sum>k\<in>{0..cols A - 1}. (case map_of (data A) (r, k) of None \<Rightarrow> 0 | Some v \<Rightarrow> v) * g k)"
    using assms by (intro row_sum_items) (auto simp: wf_dict_def in_bounds_def list_all_iff)
  also have "\<dots> = (\<Sum>k\<leftarrow>py_range (cols A). get_element A r k * g k)"
    by (simp add: py_range_def get_element_def sum_list_distinct_conv_sum_set)
  finally show ?thesis .
qed

lemma get_element_out_of_bounds:
  assumes "in_bounds B" and "\<not> (0 \<le> c \<and> c < cols B)"
  shows "get_element B k c = 0"
proof -
  from assms have "(k, c) \<notin> fst ` set (data B)"
    by (auto simp: in_bounds_def list_all_iff)
  then have "map_of (data B) (k, c) = None"
    by (simp add: map_of_eq_None_iff)
  then show ?thesis
    by (simp add: get_element_def)
qed

lemma get_multiply:
  assumes "wf_dict (data A)" and "in_bounds A" and "in_bounds B"
  shows "get_element (fold (multiply_step B) (data A) (SparseMatrix_empty (rows A) (cols B))) r c
         = dense_product A B r c"
proof (cases "0 \<le> c \<and> c < cols B")
  case True
  then show ?thesis
    using dense_row_sum [OF assms(1,2), of r "\<lambda>k. get_element B k c"]
    by (simp add: get_fold_multiply_step dense_product_def)
       (simp add: get_element_def SparseMatrix_empty_def)
next
  case False
  have "(\<Sum>((r1, c1), v1)\<leftarrow>data A.
          if r = r1 \<and> 0 \<le> c \<and> c < cols B then v1 * get_element B c1 c else 0) = 0"
  proof -
    have "(\<lambda>((r1, c1), v1). if r = r1 \<and> 0 \<le> c \<and> c < cols B
             then v1 * get_element B c1 c else 0) = (\<lambda>x. 0)"
      using False by (auto simp: fun_eq_iff)
    then show ?thesis
      by simp
  qed
  moreover have "dense_product A B r c = 0"
    using get_element_out_of_bounds [OF assms(3) False]
    by (simp add: dense_product_def)
  ultimately show ?thesis
    by (simp add: get_fold_multiply_step) (simp add: get_element_def SparseMatrix_empty_def)
qed

text \<open>
  C2. \<open>multiply\<close> raises its dimension error (DimensionMismatch in the specification)
  exactly when \<open>A.cols \<noteq> B.rows\<close>. When the inner dimensions agree and the stored keys
  of both operands lie within their declared bounds, the result is \<open>A.rows\<close> by
  \<open>B.cols\<close> and its value at every coordinate is the dense reference sum over
  \<open>k\<close> in \<open>[0, A.cols)\<close> of \<open>A(r, k) * B(k, c)\<close>. Stored zeros do no harm, so their
  absence is not assumed. For \<open>A = [[1,0],[0,2]]\<close> and \<open>B = [[3,4],[0,5]]\<close> the result
  is \<open>[[3,4],[0,10]]\<close>.
\<close>

theorem multiply_dense:
  assumes "wf_dict (data A)" and "wf_dict (data B)" and "in_bounds A" and "in_bounds B"
  shows "(multiply A B = Inl (ValueError ''Matrix dimensions do not allow multiplication'')
            \<longleftrightarrow> cols A \<noteq> rows B)
       \<and> (cols A = rows B \<longrightarrow>
            (\<exists>R. multiply A B = Inr R \<and> rows R = rows A \<and> cols R = cols B
               \<and> (\<forall>r c. get_element R r c = dense_product A B r c)))
       \<and> multiply \<lparr>rows = 2, cols = 2, data = [((0, 0), 1), ((1, 1), 2)]\<rparr>
                   \<lparr>rows = 2, cols = 2, data = [((0, 0), 3), ((0, 1), 4), ((1, 1), 5)]\<rparr>
           = Inr \<lparr>rows = 2, cols = 2, data = [((0, 0), 3), ((0, 1), 4), ((1, 1), 10)]\<rparr>"
proof -
  have "multiply A B = Inl (ValueError ''Matrix dimensions do not allow multiplication'')
          \<longleftrightarrow> cols A \<noteq> rows B"
    by (simp add: multiply_def)
  moreover have "\<exists>R. multiply A B = Inr R \<and> rows R = rows A \<and> cols R = cols B
               \<and> (\<forall>r c. get_element R r c = dense_product A B r c)"
    if "cols A = rows B"
    using that get_multiply [OF assms(1,3,4)]
    by (simp add: multiply_def) (simp add: SparseMatrix_empty_def)
  moreover have "multiply \<lparr>rows = 2, cols = 2, data = [((0, 0), 1), ((1, 1), 2)]\<rparr>
                   \<lparr>rows = 2, cols = 2, data = [((0, 0), 3), ((0, 1), 4), ((1, 1), 5)]\<rparr>
           = Inr \<lparr>rows = 2, cols = 2, data = [((0, 0), 3), ((0, 1), 4), ((1, 1), 10)]\<rparr>"
    by (simp add: multiply_def multiply_step_def multiply_inner_def py_range_def
        upto.simps set_element_def get_element_def SparseMatrix_empty_def)
  ultimately show ?thesis
    by blast
qed

theorem multiply_dense_witness:
  "wf_dict (data \<lparr>rows = 2, cols = 3, data = [((0, 0), 2), ((1, 2), 3), ((0, 2), - 1)]\<rparr>)
   \<and> wf_dict (data \<lparr>rows = 3, cols = 2, data = [((0, 1), 5), ((2, 1), 10), ((2, 0), 7)]\<rparr>)
   \<and> in_bounds \<lparr>rows = 2, cols = 3, data = [((0, 0), 2), ((1, 2), 3), ((0, 2), - 1)]\<rparr>
   \<and> in_bounds \<lparr>rows = 3, cols = 2, data = [((0, 1), 5), ((2, 1), 10), ((2, 0), 7)]\<rparr>
   \<and> multiply \<lparr>rows = 2, cols = 3, data = [((0, 0), 2), ((1, 2), 3), ((0, 2), - 1)]\<rparr>
               \<lparr>rows = 3, cols = 2, data = [((0, 1), 5), ((2, 1), 10), ((2, 0), 7)]\<rparr>
       = Inr \<lparr>rows = 2, cols = 2, data = [((1, 0), 21), ((1, 1), 30), ((0, 0), - 7)]\<rparr>
   \<and> dense_product \<lparr>rows = 2, cols = 3, data = [((0, 0), 2), ((1, 2), 3), ((0, 2), - 1)]\<rparr>
               \<lparr>rows = 3, cols = 2, data = [((0, 1), 5), ((2, 1), 10), ((2, 0), 7)]\<rparr> 0 1 = 0
   \<and> dense_product \<lparr>rows = 2, cols = 3, data = [((0, 0), 2), ((1, 2), 3), ((0, 2), - 1)]\<rparr>
               \<lparr>rows = 3, cols = 2, data = [((0, 1), 5), ((2, 1), 10), ((2, 0), 7)]\<rparr> 1 1 = 30"
  using multiply_dense
    [of "\<lparr>rows = 2, cols = 3, data = [((0, 0), 2), ((1, 2), 3), ((0, 2), - 1)]\<rparr>"
        "\<lparr>rows = 3, cols = 2, data = [((0, 1), 5), ((2, 1), 10), ((2, 0), 7)]\<rparr>"]
  by (simp add: wf_dict_def in_bounds_def multiply_def multiply_step_def multiply_inner_def
      py_range_def upto.simps set_element_def get_element_def SparseMatrix_empty_def
      dense_product_def)

section \<open>Integers as text: \<open>int(str(i)) = i\<close> within the bound\<close>

lemma exceeds_limit_one: "\<not> exceeds_limit lim (Suc 0)"
  by (auto simp: exceeds_limit_def)

lemma below_ten: "n < 10 \<Longrightarrow> n \<in> {0, 1, 2, 3, 4, 5, 6, 7, 8, 9::nat}"
  by auto

lemma is_digit_digit_char: "n < 10 \<Longrightarrow> is_digit (digit_char n)"
  by (simp add: is_digit_def digit_char_def del: set_simps)

lemma digit_val_digit_char: "n < 10 \<Longrightarrow> digit_val (digit_char n) = n"
  by (drule below_ten) (auto simp: digit_val_def digit_char_def)

lemma is_digit_nat_digits: "c \<in> set (nat_digits n) \<Longrightarrow> is_digit c"
proof (induction n rule: nat_digits.induct)
  case (1 n)
  then show ?case
    by (subst (asm) nat_digits.simps) (auto simp: is_digit_digit_char split: if_splits)
qed

lemma nat_digits_not_Nil: "nat_digits n \<noteq> []"
  by (subst nat_digits.simps) simp

lemma py_digits_all_digits:
  "\<forall>c\<in>set ds. is_digit c \<Longrightarrow>
   py_digits acc ds = Some (foldl (\<lambda>a c. 10 * a + digit_val c) acc ds)"
  by (induction acc ds rule: py_digits.induct) simp_all

lemma foldl_nat_digits: "foldl (\<lambda>a c. 10 * a + digit_val c) 0 (nat_digits n) = n"
proof (induction n rule: nat_digits.induct)
  case (1 n)
  show ?case
  proof (cases "n < 10")
    case True
    then show ?thesis
      by (subst nat_digits.simps) (simp add: digit_val_digit_char)
  next
    case False
    with "1.IH" show ?thesis
      by (subst nat_digits.simps) (simp add: digit_val_digit_char)
  qed
qed

lemma filter_nat_digits: "filter is_digit (nat_digits n) = nat_digits n"
  by (simp add: is_digit_nat_digits)

lemma py_nat_nat_digits:
  assumes "\<not> exceeds_limit lim (length (nat_digits n))"
  shows "py_nat lim (nat_digits n) = Some n"
proof -
  obtain c cs where s: "nat_digits n = c # cs"
    using nat_digits_not_Nil [of n] by (cases "nat_digits n") auto
  have digits: "\<forall>d\<in>set (c # cs). is_digit d"
    using is_digit_nat_digits [of _ n] by (simp add: s)
  then have "py_digits (digit_val c) cs = Some (foldl (\<lambda>a c. 10 * a + digit_val c) 0 (c # cs))"
    by (simp add: py_digits_all_digits)
  with digits assms show ?thesis
    using foldl_nat_digits [of n] filter_nat_digits [of n] by (simp add: py_nat_def s)
qed

lemma py_nat_too_long:
  assumes "exceeds_limit lim (length (nat_digits n))"
  shows "py_nat lim (nat_digits n) = None"
proof -
  obtain c cs where s: "nat_digits n = c # cs"
    using nat_digits_not_Nil [of n] by (cases "nat_digits n") auto
  have f: "filter is_digit (c # cs) = c # cs"
    using filter_nat_digits [of n] by (simp only: s)
  from assms show ?thesis
    by (simp add: py_nat_def s f del: filter.simps split: option.splits)
qed

lemma hd_nat_digits: "is_digit (hd (nat_digits n))"
  using is_digit_nat_digits [of "hd (nat_digits n)" n] nat_digits_not_Nil [of n]
  by simp

lemma py_int_decimal:
  assumes "int_fits lim i"
  shows "py_int lim (decimal i) = Some i"
proof (cases "i < 0")
  case True
  with assms have "\<not> exceeds_limit lim (length (nat_digits (nat (- i))))"
    by (simp add: int_fits_def abs_if)
  with True show ?thesis
    by (simp add: py_int_def decimal_def py_nat_nat_digits)
next
  case False
  obtain c cs where s: "nat_digits (nat i) = c # cs"
    using nat_digits_not_Nil [of "nat i"] by (cases "nat_digits (nat i)") auto
  have "is_digit c"
    using hd_nat_digits [of "nat i"] by (simp add: s)
  then have "c \<noteq> CHR ''-''" and "c \<noteq> CHR ''+''"
    by (auto simp: is_digit_def)
  moreover from assms False have "\<not> exceeds_limit lim (length (nat_digits (nat i)))"
    by (simp add: int_fits_def abs_if)
  ultimately show ?thesis
    using False py_nat_nat_digits [of lim "nat i"] by (simp add: py_int_def decimal_def s)
qed

lemma py_int_decimal_too_long:
  assumes "\<not> int_fits lim i"
  shows "py_int lim (decimal i) = None"
proof (cases "i < 0")
  case True
  with assms have "exceeds_limit lim (length (nat_digits (nat (- i))))"
    by (simp add: int_fits_def abs_if)
  with True show ?thesis
    by (simp add: py_int_def decimal_def py_nat_too_long)
next
  case False
  obtain c cs where s: "nat_digits (nat i) = c # cs"
    using nat_digits_not_Nil [of "nat i"] by (cases "nat_digits (nat i)") auto
  have "is_digit c"
    using hd_nat_digits [of "nat i"] by (simp add: s)
  then have "c \<noteq> CHR ''-''" and "c \<noteq> CHR ''+''"
    by (auto simp: is_digit_def)
  moreover from assms False have "exceeds_limit lim (length (nat_digits (nat i)))"
    by (simp add: int_fits_def abs_if)
  ultimately show ?thesis
    using False py_nat_too_long [of lim "nat i"] by (simp add: py_int_def decimal_def s)
qed

text \<open>A number that is at least \<open>10 ^ k\<close> has more than \<open>k\<close> digits.\<close>

lemma length_nat_digits_power: "10 ^ k \<le> n \<Longrightarrow> k < length (nat_digits n)"
proof (induction k arbitrary: n)
  case 0
  then show ?case
    using nat_digits_not_Nil [of n] by (cases "nat_digits n") auto
next
  case (Suc k)
  from Suc.prems have p: "10 * 10 ^ k \<le> n"
    by simp
  have q: "(10::nat) \<le> 10 * 10 ^ k"
    by simp
  from p q have "\<not> n < 10"
    by linarith
  moreover from p have "(10 * 10 ^ k) div 10 \<le> n div 10"
    by (rule div_le_mono)
  then have "10 ^ k \<le> n div 10"
    by simp
  ultimately show ?case
    using Suc.IH [of "n div 10"] by (subst nat_digits.simps) simp
qed

lemma int_fits_power: "0 < lim \<Longrightarrow> \<not> int_fits lim (10 ^ lim)"
proof -
  assume "0 < lim"
  have e: "nat \<bar>(10::int) ^ lim\<bar> = 10 ^ lim"
    by (simp add: nat_power_eq)
  have "lim < length (nat_digits (10 ^ lim))"
    by (rule length_nat_digits_power) simp
  then have "lim < length (nat_digits (nat \<bar>(10::int) ^ lim\<bar>))"
    by (simp only: e)
  with \<open>0 < lim\<close> show ?thesis
    by (simp add: int_fits_def exceeds_limit_def)
qed

lemma int_char_decimal: "c \<in> set (decimal i) \<Longrightarrow> int_char c"
  by (auto simp: decimal_def int_char_def is_digit_def dest!: is_digit_nat_digits split: if_splits)

lemma decimal_not_Nil: "decimal i \<noteq> []"
  by (simp add: decimal_def nat_digits_not_Nil)

lemma int_char_plain:
  "int_char c \<Longrightarrow> \<not> isspace c \<and> c \<noteq> LF \<and> c \<noteq> CR \<and> c \<noteq> CHR '','' \<and> c \<noteq> CHR ''=''"
  by (auto simp: int_char_def isspace_def LF_def CR_def)

section \<open>Stripping, splitting and lines\<close>

lemma strip_padded:
  assumes "\<forall>c\<in>set a. isspace c" and "\<forall>c\<in>set b. isspace c"
    and "s \<noteq> []" and "\<not> isspace (hd s)" and "\<not> isspace (last s)"
  shows "strip (a @ s @ b) = s"
proof -
  from assms(3,4) have "dropWhile isspace s = s"
    by (simp add: dropWhile_eq_self_iff)
  with assms(1) have front: "dropWhile isspace (a @ s @ b) = s @ b"
    using assms(3,4) by (cases s) (simp_all add: dropWhile_append)
  from assms(3,5) have "dropWhile isspace (rev s) = rev s"
    by (simp add: dropWhile_eq_self_iff hd_rev)
  with assms(2,3) have "dropWhile isspace (rev b @ rev s) = rev s"
    by (simp add: dropWhile_append)
  with front show ?thesis
    by (simp add: strip_def)
qed

lemma strip_plain:
  "s \<noteq> [] \<Longrightarrow> \<not> isspace (hd s) \<Longrightarrow> \<not> isspace (last s) \<Longrightarrow> strip s = s"
  using strip_padded [of "[]" "[]" s] by simp

lemma isspace_LF: "isspace LF"
  by (simp add: isspace_def LF_def)

lemma strip_line_feed: "strip (l @ [LF]) = strip l"
proof (cases "\<forall>c\<in>set l. isspace c")
  case True
  then have "dropWhile isspace (l @ [LF]) = []" and "dropWhile isspace l = []"
    by (simp_all add: isspace_LF)
  then show ?thesis
    by (simp only: strip_def)
next
  case False
  then have "dropWhile isspace (l @ [LF]) = dropWhile isspace l @ [LF]"
    by (auto simp: dropWhile_append)
  then show ?thesis
    by (simp add: strip_def isspace_LF)
qed

lemma split_no_sep: "sep \<notin> set s \<Longrightarrow> split sep s = [s]"
  by (induction s) auto

lemma split_at_sep: "sep \<notin> set a \<Longrightarrow> split sep (a @ sep # b) = a # split sep b"
  by (induction a) auto

lemma universal_newlines_plain: "CR \<notin> set s \<Longrightarrow> universal_newlines s = s"
  by (induction s rule: universal_newlines.induct) auto

lemma file_lines_line:
  "LF \<notin> set a \<Longrightarrow> file_lines (a @ LF # rest) = (a @ [LF]) # file_lines rest"
  by (induction a) auto

lemma file_lines_last: "LF \<notin> set a \<Longrightarrow> a \<noteq> [] \<Longrightarrow> file_lines a = [a]"
proof (induction a)
  case Nil
  then show ?case by simp
next
  case (Cons c a)
  show ?case
  proof (cases "a = []")
    case True
    with Cons.prems show ?thesis by simp
  next
    case False
    with Cons show ?thesis by auto
  qed
qed

lemma load_line_line_feed: "load_line lim self (l @ [LF]) = load_line lim self l"
  by (simp add: load_line_def strip_line_feed)

lemma load_lines_file_lines_join:
  assumes "\<forall>l\<in>set ls. LF \<notin> set l \<and> l \<noteq> []"
  shows "load_lines lim self (file_lines (join [LF] ls)) = load_lines lim self ls"
  using assms
proof (induction ls arbitrary: self rule: induct_list012)
  case 1
  show ?case by simp
next
  case (2 l)
  then show ?case
    by (simp add: file_lines_last)
next
  case (3 l l' ls)
  then show ?case
    by (simp add: file_lines_line load_line_line_feed split: sum.splits)
qed

section \<open>Loading the lines that \<open>to_string\<close> writes\<close>

lemma decimal_ends: "\<not> isspace (hd (decimal n))" "\<not> isspace (last (decimal n))"
  using int_char_decimal [of "hd (decimal n)" n] int_char_decimal [of "last (decimal n)" n]
    decimal_not_Nil [of n] int_char_plain
  by auto

lemma isspace_literals:
  "isspace (CHR '' '')" "\<not> isspace (CHR ''r'')" "\<not> isspace (CHR ''c'')"
  "\<not> isspace (CHR ''('')" "\<not> isspace (CHR '')'')"
  by (simp_all add: isspace_def)

lemma strip_decimal: "strip (decimal n) = decimal n"
  by (rule strip_plain) (simp_all add: decimal_not_Nil decimal_ends)

lemma strip_space_decimal: "strip (CHR '' '' # decimal n) = decimal n"
  using strip_padded [of "'' ''" "[]" "decimal n"]
  by (simp add: decimal_not_Nil decimal_ends isspace_literals)

lemma sep_notin_decimal:
  "CHR '','' \<notin> set (decimal n)" "CHR ''='' \<notin> set (decimal n)"
  "LF \<notin> set (decimal n)" "CR \<notin> set (decimal n)"
  using int_char_decimal [of _ n] int_char_plain by blast+

lemma endswith_single: "endswith s [c] \<longleftrightarrow> s \<noteq> [] \<and> last s = c"
  by (cases s rule: rev_cases) (auto simp: endswith_def)

lemma load_line_rows:
  assumes "int_fits lim n"
  shows "load_line lim self (''rows='' @ decimal n) = Inr (self\<lparr>rows := n\<rparr>)"
proof -
  let ?l = "''rows='' @ decimal n"
  have "strip ?l = ?l"
    by (rule strip_plain) (simp_all add: decimal_not_Nil decimal_ends isspace_literals)
  moreover have "split (CHR ''='') ?l = [''rows'', decimal n]"
    using split_at_sep [of "CHR ''=''" "''rows''" "decimal n"]
    by (simp add: split_no_sep sep_notin_decimal)
  ultimately show ?thesis
    using assms by (simp add: load_line_def startswith_def strip_decimal py_int_decimal)
qed

lemma load_line_cols:
  assumes "int_fits lim n"
  shows "load_line lim self (''cols='' @ decimal n) = Inr (self\<lparr>cols := n\<rparr>)"
proof -
  let ?l = "''cols='' @ decimal n"
  have "strip ?l = ?l"
    by (rule strip_plain) (simp_all add: decimal_not_Nil decimal_ends isspace_literals)
  moreover have "split (CHR ''='') ?l = [''cols'', decimal n]"
    using split_at_sep [of "CHR ''=''" "''cols''" "decimal n"]
    by (simp add: split_no_sep sep_notin_decimal)
  ultimately show ?thesis
    using assms by (simp add: load_line_def startswith_def strip_decimal py_int_decimal)
qed

lemma load_line_entry:
  assumes "int_fits lim row" and "int_fits lim col" and "int_fits lim val"
  shows "load_line lim self (entry_text ((row, col), val)) =
     Inr (self\<lparr>data := AList.update (row, col) val (data self)\<rparr>)"
proof -
  let ?l = "entry_text ((row, col), val)"
  let ?inner = "decimal row @ '', '' @ decimal col @ '', '' @ decimal val"
  have l: "?l = CHR ''('' # ?inner @ '')''"
    by (simp add: entry_text_def)
  have "strip ?l = ?l"
    by (rule strip_plain) (simp_all add: l isspace_literals)
  moreover have "butlast (tl ?l) = ?inner"
    by (simp add: l butlast_append)
  moreover have "split (CHR '','') ?inner =
      [decimal row, CHR '' '' # decimal col, CHR '' '' # decimal val]"
    using split_at_sep [of "CHR '',''" "decimal row" "'' '' @ decimal col @ '', '' @ decimal val"]
      split_at_sep [of "CHR '',''" "'' '' @ decimal col" "'' '' @ decimal val"]
    by (simp add: split_no_sep sep_notin_decimal)
  moreover have "startswith ?l ''(''" "\<not> startswith ?l ''rows=''" "\<not> startswith ?l ''cols=''"
    by (simp_all add: l startswith_def)
  moreover have "endswith ?l '')''"
    by (simp add: l endswith_single)
  moreover have "?l \<noteq> []"
    by (simp add: l)
  ultimately show ?thesis
    using assms by (simp add: load_line_def strip_decimal strip_space_decimal py_int_decimal)
qed

lemma load_lines_entries:
  assumes "list_all (\<lambda>((row, col), val). int_fits lim row \<and> int_fits lim col \<and> int_fits lim val) es"
  shows "load_lines lim self (map entry_text es) =
     Inr (self\<lparr>data := fold (\<lambda>(k, v). AList.update k v) es (data self)\<rparr>)"
  using assms
proof (induction es arbitrary: self)
  case Nil
  show ?case by simp
next
  case (Cons e es)
  obtain row col val where e: "e = ((row, col), val)"
    by (metis surj_pair)
  from Cons.prems show ?case
    by (simp add: e load_line_entry Cons.IH)
qed

lemma fold_update_fresh:
  "distinct (map fst es) \<Longrightarrow> fst ` set es \<inter> fst ` set d = {} \<Longrightarrow>
   fold (\<lambda>(k, v). AList.update k v) es d = d @ es"
proof (induction es arbitrary: d)
  case Nil
  show ?case by simp
next
  case (Cons e es)
  obtain k v where e: "e = (k, v)"
    by (cases e)
  from Cons.prems e have "k \<notin> fst ` set d"
    by auto
  then have upd: "AList.update k v d = d @ [(k, v)]"
    by (induction d) auto
  from Cons.prems e have "fst ` set es \<inter> fst ` set (d @ [(k, v)]) = {}"
    by auto
  with Cons.prems have "fold (\<lambda>(k, v). AList.update k v) es (d @ [(k, v)]) = (d @ [(k, v)]) @ es"
    by (intro Cons.IH) simp_all
  then show ?case
    by (simp add: e upd)
qed

section \<open>Loading a serialized matrix\<close>

lemma set_join: "c \<in> set (join sep ls) \<Longrightarrow> c \<in> set sep \<or> (\<exists>l\<in>set ls. c \<in> set l)"
  by (induction ls rule: induct_list012) auto

lemma newline_notin_entry_text: "LF \<notin> set (entry_text e)" "CR \<notin> set (entry_text e)"
proof -
  obtain row col val where e: "e = ((row, col), val)"
    by (metis surj_pair)
  show "LF \<notin> set (entry_text e)"
    by (simp add: e entry_text_def sep_notin_decimal) (simp add: LF_def)
  show "CR \<notin> set (entry_text e)"
    by (simp add: e entry_text_def sep_notin_decimal) (simp add: CR_def)
qed

lemma newline_notin_header:
  "LF \<notin> set (''rows='' @ decimal n)" "CR \<notin> set (''rows='' @ decimal n)"
  "LF \<notin> set (''cols='' @ decimal n)" "CR \<notin> set (''cols='' @ decimal n)"
  by (simp_all add: sep_notin_decimal) (simp_all add: LF_def CR_def)

lemma entry_text_not_Nil: "entry_text e \<noteq> []"
  by (cases e) (auto simp: entry_text_def)

lemma sorted_keys:
  fixes es :: dict
  shows "sorted_wrt coord_le (map fst (sort es))"
proof -
  have "sorted_wrt (\<le>) (sort es)"
    by simp
  then have "sorted_wrt (\<lambda>x y. coord_le (fst x) (fst y)) (sort es)"
    by (rule sorted_wrt_mono_rel [rotated]) (auto simp: coord_le_def less_eq_prod_def)
  then show ?thesis
    by (simp add: sorted_wrt_map)
qed

lemma load_serialized_lines:
  "load_lines lim self (file_lines (universal_newlines (serialized M))) =
     load_lines lim self ((''rows='' @ decimal (rows M)) # (''cols='' @ decimal (cols M))
                # map entry_text (sort (data M)))"
proof -
  define ls where "ls = (''rows='' @ decimal (rows M)) # (''cols='' @ decimal (cols M))
                # map entry_text (sort (data M))"
  have ts: "serialized M = join [LF] ls"
    by (simp add: serialized_def ls_def)
  have lines: "\<forall>l\<in>set ls. LF \<notin> set l \<and> l \<noteq> []"
    unfolding ls_def
    using newline_notin_header(1,3) newline_notin_entry_text(1) entry_text_not_Nil
    by auto
  have "\<forall>l\<in>set ls. CR \<notin> set l"
    unfolding ls_def
    using newline_notin_header(2,4) newline_notin_entry_text(2)
    by auto
  moreover have "CR \<notin> set [LF]"
    by (simp add: CR_def LF_def)
  ultimately have "CR \<notin> set (join [LF] ls)"
    using set_join [of CR "[LF]" ls] by blast
  then have "universal_newlines (serialized M) = join [LF] ls"
    by (simp add: ts universal_newlines_plain)
  then have "load_lines lim self (file_lines (universal_newlines (serialized M))) = load_lines lim self ls"
    by (simp only: load_lines_file_lines_join [OF lines])
  then show ?thesis
    by (simp only: ls_def)
qed

lemma load_serialized:
  assumes "fits lim M"
  shows "load_lines lim self (file_lines (universal_newlines (serialized M))) =
     Inr (self\<lparr>rows := rows M, cols := cols M,
           data := fold (\<lambda>(k, v). AList.update k v) (sort (data M)) (data self)\<rparr>)"
proof -
  from assms have fr: "int_fits lim (rows M)" and fc: "int_fits lim (cols M)"
    and fe: "list_all (\<lambda>((row, col), val). int_fits lim row \<and> int_fits lim col
           \<and> int_fits lim val) (sort (data M))"
    by (simp_all add: fits_def list_all_iff)
  have "load_lines lim self (file_lines (universal_newlines (serialized M))) =
      Inr (self\<lparr>rows := rows M\<rparr>\<lparr>cols := cols M\<rparr>
             \<lparr>data := fold (\<lambda>(k, v). AList.update k v) (sort (data M))
                        (data (self\<lparr>rows := rows M\<rparr>\<lparr>cols := cols M\<rparr>))\<rparr>)"
    by (simp only: load_serialized_lines load_lines.simps load_line_rows [OF fr]
        load_line_cols [OF fc] load_lines_entries [OF fe] sum.case)
  then show ?thesis
    by simp
qed

text \<open>An entry line whose value has too many digits is refused.\<close>

lemma load_line_entry_too_long:
  assumes "int_fits lim row" and "int_fits lim col" and "\<not> int_fits lim val"
  shows "load_line lim self (entry_text ((row, col), val)) =
     Inl (ValueError ''invalid literal for int() with base 10'')"
proof -
  let ?l = "entry_text ((row, col), val)"
  let ?inner = "decimal row @ '', '' @ decimal col @ '', '' @ decimal val"
  have l: "?l = CHR ''('' # ?inner @ '')''"
    by (simp add: entry_text_def)
  have "strip ?l = ?l"
    by (rule strip_plain) (simp_all add: l isspace_literals)
  moreover have "butlast (tl ?l) = ?inner"
    by (simp add: l butlast_append)
  moreover have "split (CHR '','') ?inner =
      [decimal row, CHR '' '' # decimal col, CHR '' '' # decimal val]"
    using split_at_sep [of "CHR '',''" "decimal row" "'' '' @ decimal col @ '', '' @ decimal val"]
      split_at_sep [of "CHR '',''" "'' '' @ decimal col" "'' '' @ decimal val"]
    by (simp add: split_no_sep sep_notin_decimal)
  moreover have "startswith ?l ''(''" "\<not> startswith ?l ''rows=''" "\<not> startswith ?l ''cols=''"
    by (simp_all add: l startswith_def)
  moreover have "endswith ?l '')''"
    by (simp add: l endswith_single)
  moreover have "?l \<noteq> []"
    by (simp add: l)
  ultimately show ?thesis
    using assms
    by (simp add: load_line_def strip_decimal strip_space_decimal py_int_decimal
        py_int_decimal_too_long)
qed

lemma int_fits_small: "int_fits lim 0" "int_fits lim 1"
  by (simp_all add: int_fits_def nat_digits.simps exceeds_limit_one)

section \<open>When \<open>to_string\<close> returns\<close>

lemma str_int_fits: "int_fits lim i \<Longrightarrow> str_int lim i = Inr (decimal i)"
  by (simp add: str_int_def int_fits_def)

lemma str_int_too_long:
  "\<not> int_fits lim i \<Longrightarrow>
   str_int lim i = Inl (ValueError ''Exceeds the limit for integer string conversion'')"
  by (simp add: str_int_def int_fits_def)

lemma format_entry_cases:
  "format_entry lim ((row, col), val) =
     (if int_fits lim row \<and> int_fits lim col \<and> int_fits lim val
      then Inr (entry_text ((row, col), val))
      else Inl (ValueError ''Exceeds the limit for integer string conversion''))"
  by (cases "int_fits lim row"; cases "int_fits lim col"; cases "int_fits lim val")
     (simp_all add: format_entry_def entry_text_def str_int_fits str_int_too_long)

lemma format_entries_cases:
  "format_entries lim es =
     (if list_all (\<lambda>((row, col), val). int_fits lim row \<and> int_fits lim col
           \<and> int_fits lim val) es
      then Inr (map entry_text es)
      else Inl (ValueError ''Exceeds the limit for integer string conversion''))"
proof (induction es)
  case Nil
  show ?case by simp
next
  case (Cons e es)
  obtain row col val where e: "e = ((row, col), val)"
    by (metis surj_pair)
  show ?case
    by (simp add: e Cons.IH format_entry_cases)
qed

lemma to_string_cases:
  "to_string lim M =
     (if fits lim M then Inr (serialized M)
      else Inl (ValueError ''Exceeds the limit for integer string conversion''))"
proof -
  have "list_all (\<lambda>((row, col), val). int_fits lim row \<and> int_fits lim col
           \<and> int_fits lim val) (sort (data M))
      \<longleftrightarrow> list_all (\<lambda>((row, col), val). int_fits lim row \<and> int_fits lim col
           \<and> int_fits lim val) (data M)"
    by (simp add: list_all_iff)
  then show ?thesis
    by (cases "int_fits lim (rows M)"; cases "int_fits lim (cols M)")
       (simp_all add: to_string_def serialized_def fits_def format_entries_cases
        str_int_fits str_int_too_long)
qed

section \<open>The codec\<close>

lemma distinct_keys_sort:
  fixes d :: dict
  shows "distinct (map fst d) \<Longrightarrow> distinct (map fst (sort d))"
  by (simp add: distinct_map)

lemma keys_fold_update:
  "fst ` set (fold (\<lambda>(k, v). AList.update k v) es d) = fst ` set d \<union> fst ` set es"
proof (induction es arbitrary: d)
  case Nil
  show ?case by simp
next
  case (Cons e es)
  obtain k v where e: "e = (k, v)"
    by (cases e)
  have "fst ` set (AList.update k v d) = {k} \<union> fst ` set d"
    by (rule AList.dom_update)
  then show ?case
    by (simp add: e Cons.IH)
qed

lemma wf_dict_single: "wf_dict (data \<lparr>rows = r, cols = c, data = [(k, v)]\<rparr>)"
  by (simp add: wf_dict_def)

lemma no_zero_single_power:
  "no_zero (data \<lparr>rows = r, cols = c, data = [(k, 10 ^ n)]\<rparr>)"
  by (simp add: no_zero_def)

lemma not_fits_single_power:
  "0 < lim \<Longrightarrow> \<not> fits lim \<lparr>rows = r, cols = c, data = [((row, col), 10 ^ lim)]\<rparr>"
  by (simp add: fits_def int_fits_power)

lemma not_fits_single_minus_power:
  "0 < lim \<Longrightarrow> \<not> fits lim \<lparr>rows = r, cols = c, data = [((row, col), - (10 ^ lim))]\<rparr>"
  using int_fits_power [of lim] by (simp add: fits_def int_fits_def)

lemma to_string_single_power:
  "0 < lim \<Longrightarrow>
   to_string lim \<lparr>rows = r, cols = c, data = [((row, col), 10 ^ lim)]\<rparr> =
     Inl (ValueError ''Exceeds the limit for integer string conversion'')"
  by (simp only: to_string_cases not_fits_single_power if_False)

lemma to_string_unbounded: "to_string 0 M = Inr (serialized M)"
proof -
  have "fits 0 M"
    by (auto simp: fits_def int_fits_def exceeds_limit_def list_all_iff)
  then show ?thesis
    by (simp add: to_string_cases)
qed

lemma load_serialized_single_power:
  assumes "0 < lim" and "path \<noteq> []"
  shows "SparseMatrix_init lim
           (\<lambda>p. Some (serialized \<lparr>rows = 1, cols = 1, data = [((0, 0), 10 ^ lim)]\<rparr>))
           (Some path) r c = Inl (ValueError ''Input file has wrong format'')"
proof -
  let ?M = "\<lparr>rows = 1, cols = 1, data = [((0, 0), (10::int) ^ lim)]\<rparr>"
  let ?self = "\<lparr>rows = r, cols = c, data = []\<rparr>"
  from assms(1) have long: "\<not> int_fits lim (10 ^ lim)"
    by (rule int_fits_power)
  have ls: "(''rows='' @ decimal (rows ?M)) # (''cols='' @ decimal (cols ?M))
        # map entry_text (sort (data ?M))
      = [''rows='' @ decimal 1, ''cols='' @ decimal 1, entry_text ((0, 0), 10 ^ lim)]"
    by simp
  have "load_lines lim ?self
        [''rows='' @ decimal 1, ''cols='' @ decimal 1, entry_text ((0, 0), 10 ^ lim)]
      = Inl (ValueError ''invalid literal for int() with base 10'')"
    by (simp only: load_lines.simps load_line_rows [OF int_fits_small(2)]
        load_line_cols [OF int_fits_small(2)]
        load_line_entry_too_long [OF int_fits_small(1) int_fits_small(1) long] sum.case)
  then have "load_lines lim ?self (file_lines (universal_newlines (serialized ?M)))
      = Inl (ValueError ''invalid literal for int() with base 10'')"
    by (simp only: load_serialized_lines ls)
  with assms(2) show ?thesis
    by (simp add: SparseMatrix_init_def load_from_file_def)
qed

text \<open>
  C4, as amended. Round trip. Serializing a matrix \<open>M\<close> returns a text exactly when
  every integer of \<open>M\<close> has no more decimal digits than the interpreter's bound
  \<open>max_str_digits\<close> allows (always, when the bound is off). Whenever it returns a text
  and the file at a path holds that text, constructing a matrix from the path (under
  the same bound) succeeds and gives the rows, the columns and the entries of \<open>M\<close>
  (hence its non-zero entries), stored in sorted order. The keys of \<open>M\<close> are distinct,
  as in any dictionary; that \<open>M\<close> stores no zero is not needed.
\<close>

theorem load_to_string_roundtrip:
  assumes "wf_dict (data M)" and "path \<noteq> []"
  shows "((\<exists>text. to_string lim M = Inr text) \<longleftrightarrow> fits lim M)
       \<and> (to_string lim M = Inr text \<and> fs path = Some text \<longrightarrow>
            (\<exists>M'. SparseMatrix_init lim fs (Some path) r c = Inr M'
               \<and> rows M' = rows M \<and> cols M' = cols M
               \<and> data M' = sort (data M)
               \<and> set (data M') = set (data M)
               \<and> nonzero_entries M' = nonzero_entries M))"
proof (rule conjI)
  show "(\<exists>text. to_string lim M = Inr text) \<longleftrightarrow> fits lim M"
    by (simp add: to_string_cases)
next
  show "to_string lim M = Inr text \<and> fs path = Some text \<longrightarrow>
            (\<exists>M'. SparseMatrix_init lim fs (Some path) r c = Inr M'
               \<and> rows M' = rows M \<and> cols M' = cols M
               \<and> data M' = sort (data M)
               \<and> set (data M') = set (data M)
               \<and> nonzero_entries M' = nonzero_entries M)"
  proof
    assume a: "to_string lim M = Inr text \<and> fs path = Some text"
    then have f: "fits lim M" and t: "fs path = Some (serialized M)"
      by (auto simp: to_string_cases split: if_splits)
    from assms(1) have "distinct (map fst (sort (data M)))"
      unfolding wf_dict_def by (rule distinct_keys_sort)
    then have "fold (\<lambda>(k, v). AList.update k v) (sort (data M)) [] = sort (data M)"
      using fold_update_fresh [of "sort (data M)" "[]"] by simp
    then have "SparseMatrix_init lim fs (Some path) r c =
        Inr \<lparr>rows = rows M, cols = cols M, data = sort (data M)\<rparr>"
      using t assms(2)
      by (simp add: SparseMatrix_init_def load_from_file_def load_serialized [OF f])
    then show "\<exists>M'. SparseMatrix_init lim fs (Some path) r c = Inr M'
               \<and> rows M' = rows M \<and> cols M' = cols M
               \<and> data M' = sort (data M)
               \<and> set (data M') = set (data M)
               \<and> nonzero_entries M' = nonzero_entries M"
      by (simp add: nonzero_entries_def)
  qed
qed

theorem load_to_string_roundtrip_witness:
  "wf_dict (data \<lparr>rows = 2, cols = 6, data = [((1, 0), 7), ((0, 5), - 8), ((0, 1), 9)]\<rparr>)
   \<and> ''m.txt'' \<noteq> []
   \<and> fits 4300 \<lparr>rows = 2, cols = 6, data = [((1, 0), 7), ((0, 5), - 8), ((0, 1), 9)]\<rparr>
   \<and> to_string 4300 \<lparr>rows = 2, cols = 6, data = [((1, 0), 7), ((0, 5), - 8), ((0, 1), 9)]\<rparr>
       = Inr ''rows=2\<newline>cols=6\<newline>(0, 1, 9)\<newline>(0, 5, -8)\<newline>(1, 0, 7)''
   \<and> SparseMatrix_init 4300
         (\<lambda>p. Some ''rows=2\<newline>cols=6\<newline>(0, 1, 9)\<newline>(0, 5, -8)\<newline>(1, 0, 7)'')
         (Some ''m.txt'') 0 0
       = Inr \<lparr>rows = 2, cols = 6, data = [((0, 1), 9), ((0, 5), - 8), ((1, 0), 7)]\<rparr>"
proof -
  let ?M = "\<lparr>rows = 2, cols = 6, data = [((1, 0), 7), ((0, 5), - 8), ((0, 1), 9)]\<rparr>"
  let ?t = "''rows=2\<newline>cols=6\<newline>(0, 1, 9)\<newline>(0, 5, -8)\<newline>(1, 0, 7)''"
  have wf: "wf_dict (data ?M)"
    by (simp add: wf_dict_def)
  have f: "fits 4300 ?M"
    by (simp add: fits_def int_fits_def exceeds_limit_def nat_digits.simps)
  have "serialized ?M = ?t"
    by (simp add: serialized_def entry_text_def decimal_def nat_digits.simps digit_char_def
        less_eq_prod_def LF_def)
  with f have ts: "to_string 4300 ?M = Inr ?t"
    by (simp add: to_string_cases)
  have "sort (data ?M) = [((0, 1), 9), ((0, 5), - 8), ((1, 0), 7)]"
    by (simp add: less_eq_prod_def)
  with load_to_string_roundtrip [of ?M "''m.txt''" 4300 ?t "\<lambda>p. Some ?t" 0 0] wf f ts
  show ?thesis
    by auto
qed

text \<open>
  C4 as it stands fails. The matrix that stores the single value \<open>10 ^ 4300\<close>, a
  number of 4301 digits, has distinct keys and no stored zero. At the default bound of
  4300 digits \<open>to_string\<close> raises for it: no string is produced that could be
  parsed. An interpreter without the bound does produce its text, and the loader under
  the default bound refuses that text.
\<close>

theorem roundtrip_counterexample:
  "wf_dict (data \<lparr>rows = 1, cols = 1, data = [((0, 0), 10 ^ 4300)]\<rparr>)
   \<and> no_zero (data \<lparr>rows = 1, cols = 1, data = [((0, 0), 10 ^ 4300)]\<rparr>)
   \<and> to_string 4300 \<lparr>rows = 1, cols = 1, data = [((0, 0), 10 ^ 4300)]\<rparr>
       = Inl (ValueError ''Exceeds the limit for integer string conversion'')
   \<and> to_string 0 \<lparr>rows = 1, cols = 1, data = [((0, 0), 10 ^ 4300)]\<rparr>
       = Inr (serialized \<lparr>rows = 1, cols = 1, data = [((0, 0), 10 ^ 4300)]\<rparr>)
   \<and> SparseMatrix_init 4300
         (\<lambda>p. Some (serialized \<lparr>rows = 1, cols = 1, data = [((0, 0), 10 ^ 4300)]\<rparr>))
         (Some ''m.txt'') 0 0
       = Inl (ValueError ''Input file has wrong format'')"
proof (intro conjI)
  show "to_string 0 \<lparr>rows = 1, cols = 1, data = [((0, 0), 10 ^ 4300)]\<rparr>
       = Inr (serialized \<lparr>rows = 1, cols = 1, data = [((0, 0), 10 ^ 4300)]\<rparr>)"
    by (rule to_string_unbounded)
  show "SparseMatrix_init 4300
         (\<lambda>p. Some (serialized \<lparr>rows = 1, cols = 1, data = [((0, 0), 10 ^ 4300)]\<rparr>))
         (Some ''m.txt'') 0 0
       = Inl (ValueError ''Input file has wrong format'')"
    by (rule load_serialized_single_power) simp_all
  show "wf_dict (data \<lparr>rows = 1, cols = 1, data = [((0, 0), 10 ^ 4300)]\<rparr>)"
    by (rule wf_dict_single)
  show "no_zero (data \<lparr>rows = 1, cols = 1, data = [((0, 0), 10 ^ 4300)]\<rparr>)"
    by (rule no_zero_single_power)
  have "(0::nat) < 4300"
    by simp
  then show "to_string 4300 \<lparr>rows = 1, cols = 1, data = [((0, 0), 10 ^ 4300)]\<rparr>
       = Inl (ValueError ''Exceeds the limit for integer string conversion'')"
    by (rule to_string_single_power)
qed

text \<open>
  C9, as amended. When every integer of the matrix has no more decimal digits than the
  interpreter's bound allows (always, when the bound is off), the text of a matrix is
  the line \<open>rows=<rows>\<close>, the line \<open>cols=<cols>\<close> and one line
  \<open>(<row>, <col>, <val>)\<close> for each stored entry, joined by line feeds; the entry
  lines are a rearrangement of the stored entries in ascending row-major order of their
  coordinates. Otherwise \<open>to_string\<close> raises \<open>ValueError\<close>. Entries set in the
  order \<open>(1,0)\<close>, \<open>(0,5)\<close>, \<open>(0,1)\<close> are written in the order \<open>(0,1)\<close>,
  \<open>(0,5)\<close>, \<open>(1,0)\<close>.
\<close>

theorem to_string_sorted:
  "(fits lim M \<longrightarrow>
      (\<exists>es. to_string lim M =
          Inr (join [LF] ((''rows='' @ decimal (rows M)) # (''cols='' @ decimal (cols M))
                     # map entry_text es))
        \<and> mset es = mset (data M)
        \<and> sorted_wrt coord_le (map fst es)))
   \<and> (\<not> fits lim M \<longrightarrow>
        to_string lim M = Inl (ValueError ''Exceeds the limit for integer string conversion''))
   \<and> to_string lim (set_elements (SparseMatrix_empty 2 6) [(1, 0, 7), (0, 5, 8), (0, 1, 9)])
        = Inr ''rows=2\<newline>cols=6\<newline>(0, 1, 9)\<newline>(0, 5, 8)\<newline>(1, 0, 7)''"
proof (intro conjI impI)
  assume "fits lim M"
  then have "to_string lim M =
          Inr (join [LF] ((''rows='' @ decimal (rows M)) # (''cols='' @ decimal (cols M))
                     # map entry_text (sort (data M))))"
    by (simp add: to_string_cases serialized_def)
  moreover have "mset (sort (data M)) = mset (data M)"
    by simp
  ultimately show "\<exists>es. to_string lim M =
          Inr (join [LF] ((''rows='' @ decimal (rows M)) # (''cols='' @ decimal (cols M))
                     # map entry_text es))
        \<and> mset es = mset (data M)
        \<and> sorted_wrt coord_le (map fst es)"
    using sorted_keys [of "data M"] by blast
next
  assume "\<not> fits lim M"
  then show "to_string lim M =
      Inl (ValueError ''Exceeds the limit for integer string conversion'')"
    by (simp add: to_string_cases)
next
  let ?M = "set_elements (SparseMatrix_empty 2 6) [(1, 0, 7), (0, 5, 8), (0, 1, 9)]"
  have "fits lim ?M"
    by (simp add: SparseMatrix_empty_def set_element_def fits_def int_fits_def
        exceeds_limit_one nat_digits.simps)
  moreover have "serialized ?M
       = ''rows=2\<newline>cols=6\<newline>(0, 1, 9)\<newline>(0, 5, 8)\<newline>(1, 0, 7)''"
    by (simp add: serialized_def SparseMatrix_empty_def set_element_def entry_text_def
        decimal_def nat_digits.simps digit_char_def less_eq_prod_def LF_def)
  ultimately show "to_string lim ?M
        = Inr ''rows=2\<newline>cols=6\<newline>(0, 1, 9)\<newline>(0, 5, 8)\<newline>(1, 0, 7)''"
    by (simp add: to_string_cases)
qed

theorem to_string_sorted_witness:
  "fits 4300 \<lparr>rows = 2, cols = 6, data = [((1, 0), 7), ((0, 5), - 8), ((0, 1), 9)]\<rparr>
   \<and> to_string 4300 \<lparr>rows = 2, cols = 6, data = [((1, 0), 7), ((0, 5), - 8), ((0, 1), 9)]\<rparr>
       = Inr ''rows=2\<newline>cols=6\<newline>(0, 1, 9)\<newline>(0, 5, -8)\<newline>(1, 0, 7)''
   \<and> \<not> fits 4300 \<lparr>rows = 1, cols = 1, data = [((0, 0), - (10 ^ 4300))]\<rparr>
   \<and> to_string 4300 \<lparr>rows = 1, cols = 1, data = [((0, 0), - (10 ^ 4300))]\<rparr>
       = Inl (ValueError ''Exceeds the limit for integer string conversion'')"
proof -
  let ?M = "\<lparr>rows = 2, cols = 6, data = [((1, 0), 7), ((0, 5), - 8), ((0, 1), 9)]\<rparr>"
  let ?N = "\<lparr>rows = 1, cols = 1, data = [((0, 0), - ((10::int) ^ 4300))]\<rparr>"
  have f: "fits 4300 ?M"
    by (simp add: fits_def int_fits_def exceeds_limit_def nat_digits.simps)
  have "serialized ?M
      = ''rows=2\<newline>cols=6\<newline>(0, 1, 9)\<newline>(0, 5, -8)\<newline>(1, 0, 7)''"
    by (simp add: serialized_def entry_text_def decimal_def nat_digits.simps digit_char_def
        less_eq_prod_def LF_def)
  with f have t: "to_string 4300 ?M
      = Inr ''rows=2\<newline>cols=6\<newline>(0, 1, 9)\<newline>(0, 5, -8)\<newline>(1, 0, 7)''"
    by (simp add: to_string_cases)
  have "(0::nat) < 4300"
    by simp
  then have n: "\<not> fits 4300 ?N"
    by (rule not_fits_single_minus_power)
  from to_string_sorted [of 4300 ?N] n
  have "to_string 4300 ?N = Inl (ValueError ''Exceeds the limit for integer string conversion'')"
    by blast
  with f t n show ?thesis
    by blast
qed

text \<open>
  C9 as it stands fails. At the default bound of 4300 digits, \<open>to_string\<close> of a
  matrix that stores \<open>10 ^ 4300\<close> at \<open>(1, 1)\<close> produces no line at all: it raises.
\<close>

theorem to_string_counterexample:
  "to_string 4300 \<lparr>rows = 2, cols = 2, data = [((1, 1), 10 ^ 4300)]\<rparr>
     = Inl (ValueError ''Exceeds the limit for integer string conversion'')"
proof -
  have "(0::nat) < 4300"
    by simp
  then show ?thesis
    by (rule to_string_single_power)
qed

text \<open>
  The arithmetic operations keep the invariant: their writes go through
  \<open>set_element\<close>.
\<close>

lemma no_zero_fold_add_step:
  "no_zero (data R) \<Longrightarrow> no_zero (data (fold add_step items R))"
  by (induction items arbitrary: R)
     (simp_all add: add_step_def no_zero_set_element split: prod.splits)

lemma no_zero_fold_subtract_step:
  "no_zero (data R) \<Longrightarrow> no_zero (data (fold subtract_step items R))"
  by (induction items arbitrary: R)
     (simp_all add: subtract_step_def no_zero_set_element split: prod.splits)

lemma no_zero_fold_multiply_inner:
  "no_zero (data R) \<Longrightarrow> no_zero (data (fold (multiply_inner other r1 c1 v1) cs R))"
  by (induction cs arbitrary: R) (simp_all add: multiply_inner_def Let_def no_zero_set_element)

lemma no_zero_fold_multiply_step:
  "no_zero (data R) \<Longrightarrow> no_zero (data (fold (multiply_step other) items R))"
  by (induction items arbitrary: R)
     (simp_all add: multiply_step_def no_zero_fold_multiply_inner split: prod.splits)

lemma no_zero_arithmetic:
  "no_zero (data A) \<Longrightarrow> add A B = Inr R \<Longrightarrow> no_zero (data R)"
  "no_zero (data A) \<Longrightarrow> subtract A B = Inr R \<Longrightarrow> no_zero (data R)"
  "multiply A B = Inr R \<Longrightarrow> no_zero (data R)"
proof -
  show "no_zero (data A) \<Longrightarrow> add A B = Inr R \<Longrightarrow> no_zero (data R)"
    using no_zero_fold_add_step
      [of "(SparseMatrix_empty (rows A) (cols A))\<lparr>data := data A\<rparr>" "data B"]
    by (auto simp: add_def split: if_splits)
  show "no_zero (data A) \<Longrightarrow> subtract A B = Inr R \<Longrightarrow> no_zero (data R)"
    using no_zero_fold_subtract_step
      [of "(SparseMatrix_empty (rows A) (cols A))\<lparr>data := data A\<rparr>" "data B"]
    by (auto simp: subtract_def split: if_splits)
  show "multiply A B = Inr R \<Longrightarrow> no_zero (data R)"
    using no_zero_fold_multiply_step [of "SparseMatrix_empty (rows A) (cols B)" B "data A"]
    by (auto simp: multiply_def SparseMatrix_empty_def no_zero_def split: if_splits)
qed

text \<open>
  C3. Loading a file with the entry line \<open>(0, 0, 0)\<close> returns a matrix that stores
  the value 0 at \<open>(0, 0)\<close>: \<open>load_from_file\<close> writes into the dictionary directly
  and not through \<open>set_element\<close>.
\<close>

theorem load_stores_zero:
  "SparseMatrix_init lim (\<lambda>p. Some ''rows=1\<newline>cols=1\<newline>(0, 0, 0)'') (Some ''m.txt'') 0 0
     = Inr \<lparr>rows = 1, cols = 1, data = [((0, 0), 0)]\<rparr>
   \<and> \<not> no_zero (data \<lparr>rows = 1, cols = 1, data = [((0, 0), 0)]\<rparr>)"
  by (simp add: SparseMatrix_init_def load_from_file_def load_line_def LF_def CR_def strip_def
      isspace_def startswith_def endswith_def py_int_def py_nat_def exceeds_limit_one is_digit_def digit_val_def
      no_zero_def)

text \<open>
  What the loader does reject. Every failure of the constructor is the one
  \<open>ValueError\<close>; a file that cannot be read, a line of no recognized shape and an
  entry line without exactly three integer fields each raise it, and one failing line
  anywhere in the file fails the whole load, so that no matrix is returned.
\<close>

lemma load_failure_kind:
  "SparseMatrix_init lim fs file_path r c = Inl e \<Longrightarrow> e = ValueError ''Input file has wrong format''"
  by (auto simp: SparseMatrix_init_def load_from_file_def Let_def
      split: option.splits if_splits sum.splits)

lemma load_io_failure:
  "fs path = None \<Longrightarrow> path \<noteq> [] \<Longrightarrow>
   SparseMatrix_init lim fs (Some path) r c = Inl (ValueError ''Input file has wrong format'')"
  by (simp add: SparseMatrix_init_def load_from_file_def)

lemma load_line_unrecognized:
  assumes "strip l \<noteq> []"
    and "\<not> startswith (strip l) ''rows=''" and "\<not> startswith (strip l) ''cols=''"
    and "\<not> (startswith (strip l) ''('' \<and> endswith (strip l) '')'')"
  shows "load_line lim self l = Inl (ValueError ''Input file has wrong format'')"
  using assms by (auto simp: load_line_def Let_def)

lemma load_line_entry_fields:
  assumes "startswith (strip l) ''(''" and "endswith (strip l) '')''"
    and "parts = split (CHR '','') (butlast (tl (strip l)))"
    and "length parts \<noteq> 3 \<or> py_int lim (strip (parts ! 0)) = None
         \<or> py_int lim (strip (parts ! 1)) = None \<or> py_int lim (strip (parts ! 2)) = None"
  shows "isl (load_line lim self l)"
proof -
  from assms(1) have "strip l \<noteq> []" "\<not> startswith (strip l) ''rows=''"
    "\<not> startswith (strip l) ''cols=''"
    by (cases "strip l"; auto simp: startswith_def)+
  then show ?thesis
    using assms by (auto simp: load_line_def Let_def split: option.splits)
qed

lemma load_line_failure_state: "isl (load_line lim self l) \<Longrightarrow> isl (load_line lim self' l)"
  by (auto simp: load_line_def Let_def split: if_splits option.splits list.splits)

lemma load_lines_invalid_line:
  "l \<in> set ls \<Longrightarrow> isl (load_line lim self0 l) \<Longrightarrow> isl (load_lines lim self ls)"
proof (induction ls arbitrary: self)
  case Nil
  then show ?case by simp
next
  case (Cons x ls)
  show ?case
  proof (cases "load_line lim self x")
    case (Inl e)
    then show ?thesis by simp
  next
    case (Inr self')
    with Cons.prems have "l \<in> set ls"
      using load_line_failure_state [of lim self0 l self] by auto
    with Cons.IH [of self'] Cons.prems(2) Inr show ?thesis
      by simp
  qed
qed

lemma load_invalid_line_aborts:
  assumes "fs path = Some text" and "path \<noteq> []"
    and "l \<in> set (file_lines (universal_newlines text))" and "isl (load_line lim self0 l)"
  shows "SparseMatrix_init lim fs (Some path) r c = Inl (ValueError ''Input file has wrong format'')"
proof -
  from assms(3,4)
  have "isl (load_lines lim \<lparr>rows = r, cols = c, data = []\<rparr> (file_lines (universal_newlines text)))"
    by (rule load_lines_invalid_line)
  with assms(1,2) show ?thesis
    by (auto simp: SparseMatrix_init_def load_from_file_def isl_def)
qed

text \<open>
  C5. The line \<open>rows=2=junk\<close> is not of the shape \<open>rows=<integer>\<close>, and the load
  accepts it: \<open>line.split("=")[1]\<close> is the text between the first and the second
  \<open>=\<close>, and what follows is never looked at.
\<close>

theorem load_accepts_trailing_text:
  "SparseMatrix_init lim (\<lambda>p. Some ''rows=2=junk'') (Some ''m.txt'') 0 0
     = Inr \<lparr>rows = 2, cols = 0, data = []\<rparr>"
  by (simp add: SparseMatrix_init_def load_from_file_def load_line_def LF_def CR_def strip_def
      isspace_def startswith_def endswith_def py_int_def py_nat_def exceeds_limit_one is_digit_def digit_val_def)

section \<open>Files without dimension lines\<close>

lemma parse_entry_blank: "strip l = [] \<Longrightarrow> parse_entry lim l = None"
  by (simp add: parse_entry_def startswith_def)

lemma parse_entry_shape:
  assumes "parse_entry lim l = Some e"
  shows "strip l \<noteq> []" and "\<not> startswith (strip l) ''rows=''"
    and "\<not> startswith (strip l) ''cols=''"
proof -
  from assms have p: "startswith (strip l) ''(''"
    by (auto simp: parse_entry_def Let_def split: if_splits)
  then show "strip l \<noteq> []"
    by (auto simp: startswith_def)
  from p show "\<not> startswith (strip l) ''rows=''"
    by (cases "strip l") (auto simp: startswith_def)
  from p show "\<not> startswith (strip l) ''cols=''"
    by (cases "strip l") (auto simp: startswith_def)
qed

text \<open>On a line of the grammar the loop body does what the grammar says.\<close>

lemma load_line_entry_line:
  assumes "parse_entry lim l = Some (k, v)"
  shows "load_line lim self l = Inr (self\<lparr>data := AList.update k v (data self)\<rparr>)"
  using assms parse_entry_shape [OF assms]
  by (auto simp: load_line_def parse_entry_def Let_def split: if_splits option.splits)

lemma load_line_blank: "strip l = [] \<Longrightarrow> load_line lim self l = Inr self"
  by (simp add: load_line_def)

lemma load_lines_valid:
  assumes "\<forall>l\<in>set ls. valid_line lim l"
  shows "load_lines lim self ls =
     Inr (self\<lparr>data := fold (\<lambda>(k, v). AList.update k v)
                           (List.map_filter (parse_entry lim) ls) (data self)\<rparr>)"
  using assms
proof (induction ls arbitrary: self)
  case Nil
  show ?case by (simp add: map_filter_simps)
next
  case (Cons l ls)
  then have IH: "\<And>self. load_lines lim self ls =
     Inr (self\<lparr>data := fold (\<lambda>(k, v). AList.update k v)
                           (List.map_filter (parse_entry lim) ls) (data self)\<rparr>)"
    by simp
  show ?case
  proof (cases "parse_entry lim l")
    case None
    with Cons.prems have "strip l = []"
      by (simp add: valid_line_def)
    with None show ?thesis
      by (simp add: load_line_blank IH map_filter_simps)
  next
    case (Some e)
    obtain k v where e: "e = (k, v)"
      by (cases e)
    from Some show ?thesis
      by (simp add: e load_line_entry_line IH map_filter_simps)
  qed
qed

lemma set_map_filter: "set (List.map_filter f xs) = {y. \<exists>x\<in>set xs. f x = Some y}"
  by (induction xs) (auto simp: map_filter_simps split: option.splits)

text \<open>
  C10, as amended. A file in which every line is blank or an entry line of three
  integers, each with no more digits than the interpreter's bound allows (any number of
  digits when the bound is off), has no \<open>rows=\<close> line and no \<open>cols=\<close> line, and
  loading it does not raise: the matrix has 0 rows and 0 columns, the constructor's
  defaults, and stores exactly the coordinates of the entry lines, so that with at
  least one line that is not blank its keys lie outside its declared bounds.
\<close>

theorem load_without_dimensions:
  assumes "path \<noteq> []" and "fs path = Some text"
    and "\<forall>l\<in>set (file_lines (universal_newlines text)). valid_line lim l"
  shows "\<exists>M. SparseMatrix_init lim fs (Some path) 0 0 = Inr M
           \<and> rows M = 0 \<and> cols M = 0
           \<and> fst ` set (data M) =
               {k. \<exists>l\<in>set (file_lines (universal_newlines text)).
                     \<exists>v. parse_entry lim l = Some (k, v)}
           \<and> ((\<exists>l\<in>set (file_lines (universal_newlines text)). strip l \<noteq> [])
                \<longrightarrow> \<not> in_bounds M)"
proof -
  define ls where "ls = file_lines (universal_newlines text)"
  define es where "es = List.map_filter (parse_entry lim) ls"
  define M where "M = \<lparr>rows = 0, cols = 0, data = fold (\<lambda>(k, v). AList.update k v) es []\<rparr>"
  from assms have init: "SparseMatrix_init lim fs (Some path) 0 0 = Inr M"
    by (simp add: SparseMatrix_init_def load_from_file_def load_lines_valid M_def es_def ls_def)
  have "fst ` set es = {k. \<exists>l\<in>set ls. \<exists>v. parse_entry lim l = Some (k, v)}"
    unfolding es_def set_map_filter by force
  then have keys: "fst ` set (data M) = {k. \<exists>l\<in>set ls. \<exists>v. parse_entry lim l = Some (k, v)}"
    by (simp add: M_def keys_fold_update)
  have "\<not> in_bounds M" if "\<exists>l\<in>set ls. strip l \<noteq> []"
  proof -
    from that obtain l where l: "l \<in> set ls" "strip l \<noteq> []"
      by blast
    with assms(3) obtain e where "parse_entry lim l = Some e"
      by (auto simp: valid_line_def ls_def)
    with l keys have "fst e \<in> fst ` set (data M)"
      by (cases e) auto
    then obtain x xs where "data M = x # xs"
      by (cases "data M") auto
    then show ?thesis
      by (auto simp: in_bounds_def M_def)
  qed
  with init keys show ?thesis
    by (auto simp: ls_def M_def)
qed

theorem load_without_dimensions_witness:
  "''m.txt'' \<noteq> []
   \<and> file_lines (universal_newlines ''\<newline>(1, 2, 3)\<newline>\<newline>( 4 ,+5, -6 )\<newline>'')
       = [''\<newline>'', ''(1, 2, 3)\<newline>'', ''\<newline>'', ''( 4 ,+5, -6 )\<newline>'']
   \<and> list_all (valid_line 4300)
        [''\<newline>'', ''(1, 2, 3)\<newline>'', ''\<newline>'', ''( 4 ,+5, -6 )\<newline>'']
   \<and> SparseMatrix_init 4300 (\<lambda>p. Some ''\<newline>(1, 2, 3)\<newline>\<newline>( 4 ,+5, -6 )\<newline>'')
        (Some ''m.txt'') 0 0
       = Inr \<lparr>rows = 0, cols = 0, data = [((1, 2), 3), ((4, 5), - 6)]\<rparr>
   \<and> \<not> in_bounds \<lparr>rows = 0, cols = 0, data = [((1, 2), 3), ((4, 5), - 6)]\<rparr>"
proof -
  let ?t = "''\<newline>(1, 2, 3)\<newline>\<newline>( 4 ,+5, -6 )\<newline>''"
  let ?ls = "[''\<newline>'', ''(1, 2, 3)\<newline>'', ''\<newline>'', ''( 4 ,+5, -6 )\<newline>'']"
  have ls: "file_lines (universal_newlines ?t) = ?ls"
    by (simp add: LF_def CR_def)
  have v: "list_all (valid_line 4300) ?ls"
    by (simp add: valid_line_def parse_entry_def strip_def isspace_def startswith_def
        endswith_def py_int_def py_nat_def exceeds_limit_def is_digit_def)
  have i: "SparseMatrix_init 4300 (\<lambda>p. Some ?t) (Some ''m.txt'') 0 0
       = Inr \<lparr>rows = 0, cols = 0, data = [((1, 2), 3), ((4, 5), - 6)]\<rparr>"
    by (simp add: SparseMatrix_init_def load_from_file_def load_line_def LF_def CR_def
        strip_def isspace_def startswith_def endswith_def py_int_def py_nat_def
        exceeds_limit_def is_digit_def digit_val_def)
  from v ls have a: "\<forall>l\<in>set (file_lines (universal_newlines ?t)). valid_line 4300 l"
    by (simp only: list_all_iff)
  have "strip ''(1, 2, 3)\<newline>'' \<noteq> []"
    by (simp add: strip_def isspace_def)
  then have "\<exists>l\<in>set ?ls. strip l \<noteq> []"
    by (intro bexI [of _ "''(1, 2, 3)\<newline>''"]) simp_all
  then have nb: "\<exists>l\<in>set (file_lines (universal_newlines ?t)). strip l \<noteq> []"
    by (simp only: ls)
  have p: "''m.txt'' \<noteq> []"
    by simp
  have t: "(\<lambda>p. Some ?t) ''m.txt'' = Some ?t"
    by simp
  from load_without_dimensions [OF p t a] nb obtain M
    where "SparseMatrix_init 4300 (\<lambda>p. Some ?t) (Some ''m.txt'') 0 0 = Inr M"
      and "\<not> in_bounds M"
    by blast
  with i have "\<not> in_bounds \<lparr>rows = 0, cols = 0, data = [((1, 2), 3), ((4, 5), - 6)]\<rparr>"
    by simp
  with ls v i p show ?thesis
    by (intro conjI)
qed

text \<open>
  What the bound refuses. \<open>long_entry_line k\<close> is an entry line of the grammar; its
  third field has \<open>k + 1\<close> digits.
\<close>

lemma py_int_long_field:
  "py_int lim (CHR ''1'' # replicate k (CHR ''0'')) =
     (if exceeds_limit lim (Suc k) then None
      else Some (int (foldl (\<lambda>a c. 10 * a + digit_val c) (digit_val (CHR ''1''))
                   (replicate k (CHR ''0'')))))"
proof -
  have d: "\<forall>c\<in>set (replicate k (CHR ''0'')). is_digit c"
    by (auto simp: is_digit_def)
  have one: "is_digit (CHR ''1'')" "CHR ''1'' \<noteq> CHR ''-''" "CHR ''1'' \<noteq> CHR ''+''"
    by (simp_all add: is_digit_def)
  have f: "filter is_digit (replicate k (CHR ''0'')) = replicate k (CHR ''0'')"
    using d by simp
  show ?thesis
    by (simp add: py_int_def py_nat_def one f py_digits_all_digits [OF d])
qed

lemma py_int_zero_field: "py_int lim ''0'' = Some 0"
  by (simp add: py_int_def py_nat_def exceeds_limit_one is_digit_def digit_val_def)

lemma long_entry_line_shape:
  "strip (long_entry_line k) = long_entry_line k"
  "long_entry_line k \<noteq> []"
  "startswith (long_entry_line k) ''(''"
  "\<not> startswith (long_entry_line k) ''rows=''"
  "\<not> startswith (long_entry_line k) ''cols=''"
  "endswith (long_entry_line k) '')''"
  "LF \<notin> set (long_entry_line k)"
  "CR \<notin> set (long_entry_line k)"
proof -
  show "strip (long_entry_line k) = long_entry_line k"
    unfolding long_entry_line_def by (rule strip_plain) (simp_all add: isspace_literals)
  show "long_entry_line k \<noteq> []" "startswith (long_entry_line k) ''(''"
    "\<not> startswith (long_entry_line k) ''rows=''" "\<not> startswith (long_entry_line k) ''cols=''"
    by (simp_all add: long_entry_line_def startswith_def)
  show "endswith (long_entry_line k) '')''"
    by (simp add: long_entry_line_def endswith_single)
  show "LF \<notin> set (long_entry_line k)" "CR \<notin> set (long_entry_line k)"
    by (auto simp: long_entry_line_def LF_def CR_def)
qed

lemma long_entry_line_fields:
  "split (CHR '','') (butlast (tl (long_entry_line k)))
     = [''0'', '' 0'', CHR '' '' # CHR ''1'' # replicate k (CHR ''0'')]"
proof -
  have "CHR '','' \<notin> set ('' 1'' @ replicate k (CHR ''0''))"
    by auto
  then have "split (CHR '','') ('' 1'' @ replicate k (CHR ''0''))
      = ['' 1'' @ replicate k (CHR ''0'')]"
    by (rule split_no_sep)
  moreover have "butlast (tl (long_entry_line k)) = ''0, 0, 1'' @ replicate k (CHR ''0'')"
    by (simp add: long_entry_line_def butlast_append)
  moreover have "split (CHR '','') (''0, 0,'' @ rest) = ''0'' # '' 0'' # split (CHR '','') rest"
    for rest
    by simp
  ultimately show ?thesis
    by simp
qed

lemma strip_fields:
  "strip ''0'' = ''0''" "strip '' 0'' = ''0''"
  "strip (CHR '' '' # CHR ''1'' # replicate k (CHR ''0'')) = CHR ''1'' # replicate k (CHR ''0'')"
proof -
  show "strip ''0'' = ''0''" "strip '' 0'' = ''0''"
    by (simp_all add: strip_def isspace_def)
  have "\<not> isspace (last (CHR ''1'' # replicate k (CHR ''0'')))"
    by (cases k) (simp_all add: isspace_def)
  then show "strip (CHR '' '' # CHR ''1'' # replicate k (CHR ''0''))
      = CHR ''1'' # replicate k (CHR ''0'')"
    using strip_padded [of "'' ''" "[]" "CHR ''1'' # replicate k (CHR ''0'')"]
    by (simp add: isspace_def)
qed

lemma long_entry_line_valid: "valid_line 0 (long_entry_line k)"
proof -
  have "\<not> exceeds_limit 0 (Suc k)"
    by (simp add: exceeds_limit_def)
  then have "parse_entry 0 (long_entry_line k) \<noteq> None"
    by (simp add: parse_entry_def long_entry_line_shape long_entry_line_fields strip_fields
        py_int_zero_field py_int_long_field)
  then show ?thesis
    by (simp add: valid_line_def)
qed

lemma long_entry_line_refused:
  assumes "0 < lim" and "lim \<le> k" and "path \<noteq> []"
  shows "SparseMatrix_init lim (\<lambda>p. Some (long_entry_line k)) (Some path) r c
           = Inl (ValueError ''Input file has wrong format'')"
proof -
  have lines: "file_lines (universal_newlines (long_entry_line k)) = [long_entry_line k]"
    by (simp add: universal_newlines_plain file_lines_last long_entry_line_shape)
  from assms(1,2) have "exceeds_limit lim (Suc k)"
    by (simp add: exceeds_limit_def)
  then have "isl (load_line lim \<lparr>rows = r, cols = c, data = []\<rparr> (long_entry_line k))"
    by (simp add: load_line_def long_entry_line_shape long_entry_line_fields strip_fields
        py_int_zero_field py_int_long_field)
  then have "isl (load_lines lim \<lparr>rows = r, cols = c, data = []\<rparr> [long_entry_line k])"
    by (auto split: sum.splits)
  with assms(3) show ?thesis
    by (auto simp: SparseMatrix_init_def load_from_file_def lines isl_def
        simp del: load_lines.simps)
qed

text \<open>
  C10 as it stands fails. The file whose one line is \<open>(0, 0, 1\<close>, 4300 zeros and
  \<open>)\<close> is an entry line of the grammar and has no \<open>rows=\<close> or \<open>cols=\<close> line; at
  the default bound of 4300 digits \<open>int\<close> refuses its third field, and the load
  raises.
\<close>

theorem load_long_integer_counterexample:
  "valid_line 0 (''(0, 0, 1'' @ replicate 4300 (CHR ''0'') @ '')'')
   \<and> SparseMatrix_init 4300 (\<lambda>p. Some (''(0, 0, 1'' @ replicate 4300 (CHR ''0'') @ '')''))
        (Some ''m.txt'') 0 0 = Inl (ValueError ''Input file has wrong format'')"
proof (rule conjI)
  show "valid_line 0 (''(0, 0, 1'' @ replicate 4300 (CHR ''0'') @ '')'')"
    by (rule long_entry_line_valid [unfolded long_entry_line_def])
  show "SparseMatrix_init 4300 (\<lambda>p. Some (''(0, 0, 1'' @ replicate 4300 (CHR ''0'') @ '')''))
        (Some ''m.txt'') 0 0 = Inl (ValueError ''Input file has wrong format'')"
    by (rule long_entry_line_refused [unfolded long_entry_line_def]) simp_all
qed

section \<open>Operands and aliasing\<close>

lemma private_resultD:
  assumes "private_result h result h'" and "r < fresh h"
  shows "objs h' r = objs h r" and "dicts h' r = dicts h r"
  using assms by (simp_all add: private_result_def list_all_iff)

lemma private_result_set_element:
  "private_result h result h' \<Longrightarrow> private_result h result (heap_set_element h' result row col val)"
  by (auto simp: private_result_def heap_set_element_def Let_def list_all_iff)

lemma private_result_fold:
  assumes "\<And>x h'. private_result h result h' \<Longrightarrow> private_result h result (f x h')"
    and "private_result h result h'"
  shows "private_result h result (fold f xs h')"
  using assms(2) by (induction xs arbitrary: h') (simp_all add: assms(1))

lemma private_result_add_step:
  "private_result h result h' \<Longrightarrow> private_result h result (heap_add_step result x h')"
  by (cases x) (auto simp: heap_add_step_def private_result_set_element)

lemma private_result_subtract_step:
  "private_result h result h' \<Longrightarrow> private_result h result (heap_subtract_step result x h')"
  by (cases x) (auto simp: heap_subtract_step_def private_result_set_element)

lemma private_result_multiply_inner:
  "private_result h result h' \<Longrightarrow>
   private_result h result (heap_multiply_inner result other r1 c1 v1 c2 h')"
  by (simp add: heap_multiply_inner_def Let_def private_result_set_element)

lemma private_result_multiply_step:
  "private_result h result h' \<Longrightarrow> private_result h result (heap_multiply_step result other x h')"
  by (cases x)
     (auto simp: heap_multiply_step_def intro!: private_result_fold private_result_multiply_inner)

lemma private_result_new:
  "private_result h (fresh h) (fst (heap_new h r c))"
  by (simp add: private_result_def heap_new_def Let_def list_all_iff)

lemma private_result_copy_data:
  "private_result h (fresh h) (heap_copy_data (fst (heap_new h r c)) (fresh h) self)"
  by (simp add: private_result_def heap_new_def heap_copy_data_def Let_def list_all_iff)

lemma operands_kept_result:
  assumes "allocated h self" and "allocated h other" and "private_result h (fresh h) h'"
  shows "operands_kept h self other (h', Inr (fresh h))"
proof -
  from assms have "objs h' self = objs h self" "objs h' other = objs h other"
    "dicts h' (data_attr (objs h self)) = dicts h (data_attr (objs h self))"
    "dicts h' (data_attr (objs h other)) = dicts h (data_attr (objs h other))"
    by (simp_all add: allocated_def private_resultD)
  moreover from assms have "fresh h \<le> data_attr (objs h' (fresh h))"
    by (simp add: private_result_def)
  ultimately show ?thesis
    using assms(1,2) by (auto simp: operands_kept_def allocated_def)
qed

lemma operands_kept_add:
  assumes "allocated h self" and "allocated h other"
  shows "operands_kept h self other (heap_add h self other)"
proof (cases "rows_attr (objs h self) \<noteq> rows_attr (objs h other)
         \<or> cols_attr (objs h self) \<noteq> cols_attr (objs h other)")
  case True
  then show ?thesis
    by (simp add: operands_kept_def heap_add_def)
next
  case False
  define h2 where "h2 = heap_copy_data
    (fst (heap_new h (rows_attr (objs h self)) (cols_attr (objs h self)))) (fresh h) self"
  define h3 where "h3 = fold (heap_add_step (fresh h)) (dicts h2 (data_attr (objs h2 other))) h2"
  have out: "heap_add h self other = (h3, Inr (fresh h))"
    using False by (simp add: heap_add_def heap_new_def Let_def h3_def h2_def)
  have "private_result h (fresh h) h2"
    unfolding h2_def by (rule private_result_copy_data)
  then have "private_result h (fresh h) h3"
    unfolding h3_def by (intro private_result_fold private_result_add_step)
  with assms show ?thesis
    unfolding out by (rule operands_kept_result)
qed

lemma operands_kept_subtract:
  assumes "allocated h self" and "allocated h other"
  shows "operands_kept h self other (heap_subtract h self other)"
proof (cases "rows_attr (objs h self) \<noteq> rows_attr (objs h other)
         \<or> cols_attr (objs h self) \<noteq> cols_attr (objs h other)")
  case True
  then show ?thesis
    by (simp add: operands_kept_def heap_subtract_def)
next
  case False
  define h2 where "h2 = heap_copy_data
    (fst (heap_new h (rows_attr (objs h self)) (cols_attr (objs h self)))) (fresh h) self"
  define h3 where
    "h3 = fold (heap_subtract_step (fresh h)) (dicts h2 (data_attr (objs h2 other))) h2"
  have out: "heap_subtract h self other = (h3, Inr (fresh h))"
    using False by (simp add: heap_subtract_def heap_new_def Let_def h3_def h2_def)
  have "private_result h (fresh h) h2"
    unfolding h2_def by (rule private_result_copy_data)
  then have "private_result h (fresh h) h3"
    unfolding h3_def by (intro private_result_fold private_result_subtract_step)
  with assms show ?thesis
    unfolding out by (rule operands_kept_result)
qed

lemma operands_kept_multiply:
  assumes "allocated h self" and "allocated h other"
  shows "operands_kept h self other (heap_multiply h self other)"
proof (cases "cols_attr (objs h self) \<noteq> rows_attr (objs h other)")
  case True
  then show ?thesis
    by (simp add: operands_kept_def heap_multiply_def)
next
  case False
  define h1 where "h1 = fst (heap_new h (rows_attr (objs h self)) (cols_attr (objs h other)))"
  define h2 where
    "h2 = fold (heap_multiply_step (fresh h) other) (dicts h1 (data_attr (objs h1 self))) h1"
  have out: "heap_multiply h self other = (h2, Inr (fresh h))"
    using False by (simp add: heap_multiply_def heap_new_def Let_def h2_def h1_def)
  have "private_result h (fresh h) h1"
    unfolding h1_def by (rule private_result_new)
  then have "private_result h (fresh h) h2"
    unfolding h2_def by (intro private_result_fold private_result_multiply_step)
  with assms show ?thesis
    unfolding out by (rule operands_kept_result)
qed

text \<open>
  C8. \<open>add\<close>, \<open>subtract\<close> and \<open>multiply\<close> leave both operands as they were,
  whether they return or raise: the operand objects (rows, columns and the dictionary
  they refer to) and the operand dictionaries are unchanged. A returned result is a new
  object, and its dictionary is not the dictionary of either operand. The operands may
  be the same object.
\<close>

theorem operations_keep_operands:
  assumes "allocated h self" and "allocated h other"
  shows "operands_kept h self other (heap_add h self other)
       \<and> operands_kept h self other (heap_subtract h self other)
       \<and> operands_kept h self other (heap_multiply h self other)"
  using assms by (simp add: operands_kept_add operands_kept_subtract operands_kept_multiply)

theorem operations_keep_operands_witness:
  "allocated
     \<lparr>objs = (\<lambda>r. \<lparr>rows_attr = 0, cols_attr = 0, data_attr = 0\<rparr>)
               (0 := \<lparr>rows_attr = 2, cols_attr = 2, data_attr = 1\<rparr>,
                2 := \<lparr>rows_attr = 2, cols_attr = 2, data_attr = 3\<rparr>),
      dicts = (\<lambda>r. [])(1 := [((0, 0), 1)], 3 := [((0, 0), - 1), ((0, 1), 4)]),
      fresh = 4\<rparr> 0
   \<and> allocated
     \<lparr>objs = (\<lambda>r. \<lparr>rows_attr = 0, cols_attr = 0, data_attr = 0\<rparr>)
               (0 := \<lparr>rows_attr = 2, cols_attr = 2, data_attr = 1\<rparr>,
                2 := \<lparr>rows_attr = 2, cols_attr = 2, data_attr = 3\<rparr>),
      dicts = (\<lambda>r. [])(1 := [((0, 0), 1)], 3 := [((0, 0), - 1), ((0, 1), 4)]),
      fresh = 4\<rparr> 2
   \<and> result_at (heap_add
     \<lparr>objs = (\<lambda>r. \<lparr>rows_attr = 0, cols_attr = 0, data_attr = 0\<rparr>)
               (0 := \<lparr>rows_attr = 2, cols_attr = 2, data_attr = 1\<rparr>,
                2 := \<lparr>rows_attr = 2, cols_attr = 2, data_attr = 3\<rparr>),
      dicts = (\<lambda>r. [])(1 := [((0, 0), 1)], 3 := [((0, 0), - 1), ((0, 1), 4)]),
      fresh = 4\<rparr> 0 2) = Inr \<lparr>rows = 2, cols = 2, data = [((0, 1), 4)]\<rparr>
   \<and> operands_kept
     \<lparr>objs = (\<lambda>r. \<lparr>rows_attr = 0, cols_attr = 0, data_attr = 0\<rparr>)
               (0 := \<lparr>rows_attr = 2, cols_attr = 2, data_attr = 1\<rparr>,
                2 := \<lparr>rows_attr = 2, cols_attr = 2, data_attr = 3\<rparr>),
      dicts = (\<lambda>r. [])(1 := [((0, 0), 1)], 3 := [((0, 0), - 1), ((0, 1), 4)]),
      fresh = 4\<rparr> 0 2
     (heap_add
     \<lparr>objs = (\<lambda>r. \<lparr>rows_attr = 0, cols_attr = 0, data_attr = 0\<rparr>)
               (0 := \<lparr>rows_attr = 2, cols_attr = 2, data_attr = 1\<rparr>,
                2 := \<lparr>rows_attr = 2, cols_attr = 2, data_attr = 3\<rparr>),
      dicts = (\<lambda>r. [])(1 := [((0, 0), 1)], 3 := [((0, 0), - 1), ((0, 1), 4)]),
      fresh = 4\<rparr> 0 2)"
proof -
  let ?h = "\<lparr>objs = (\<lambda>r. \<lparr>rows_attr = 0, cols_attr = 0, data_attr = 0\<rparr>)
               (0 := \<lparr>rows_attr = 2, cols_attr = 2, data_attr = 1\<rparr>,
                2 := \<lparr>rows_attr = 2, cols_attr = 2, data_attr = 3\<rparr>),
      dicts = (\<lambda>r. [])(1 := [((0, 0), 1)], 3 := [((0, 0), - 1), ((0, 1), 4)]),
      fresh = 4\<rparr>"
  have a: "allocated ?h 0" "allocated ?h 2"
    by (simp_all add: allocated_def)
  have "result_at (heap_add ?h 0 2) = Inr \<lparr>rows = 2, cols = 2, data = [((0, 1), 4)]\<rparr>"
    by (simp add: result_at_def heap_add_def heap_new_def heap_copy_data_def Let_def
        heap_add_step_def heap_set_element_def heap_get_element_def matrix_at_def)
  with a operations_keep_operands [OF a] show ?thesis
    by simp
qed

section \<open>The operations on objects compute the operations on values\<close>

text \<open>
  The matrix that the result object stands for is the matrix that \<open>add\<close>,
  \<open>subtract\<close> and \<open>multiply\<close> of the first sections compute from the matrices that
  the operand objects stand for, and the same error is raised.
\<close>

lemma heap_get_element_at: "heap_get_element h self r c = get_element (matrix_at h self) r c"
  by (simp add: heap_get_element_def get_element_def matrix_at_def)

lemma matrix_at_set_element:
  "matrix_at (heap_set_element h self row col val) self = set_element (matrix_at h self) row col val"
  by (simp add: heap_set_element_def set_element_def matrix_at_def Let_def)

lemma matrix_at_add_step:
  "matrix_at (heap_add_step result x h) result = add_step x (matrix_at h result)"
  by (cases x)
     (auto simp: heap_add_step_def add_step_def matrix_at_set_element heap_get_element_at)

lemma matrix_at_subtract_step:
  "matrix_at (heap_subtract_step result x h) result = subtract_step x (matrix_at h result)"
  by (cases x)
     (auto simp: heap_subtract_step_def subtract_step_def matrix_at_set_element
        heap_get_element_at)

lemma matrix_at_fold_add_step:
  "matrix_at (fold (heap_add_step result) items h) result = fold add_step items (matrix_at h result)"
  by (induction items arbitrary: h) (simp_all add: matrix_at_add_step)

lemma matrix_at_fold_subtract_step:
  "matrix_at (fold (heap_subtract_step result) items h) result =
     fold subtract_step items (matrix_at h result)"
  by (induction items arbitrary: h) (simp_all add: matrix_at_subtract_step)

lemma matrix_at_private:
  "private_result h result h' \<Longrightarrow> allocated h other \<Longrightarrow> matrix_at h' other = matrix_at h other"
  by (simp add: matrix_at_def allocated_def private_resultD)

lemma matrix_at_multiply_inner:
  assumes "private_result h result h'" and "allocated h other"
  shows "matrix_at (heap_multiply_inner result other r1 c1 v1 c2 h') result =
           multiply_inner (matrix_at h other) r1 c1 v1 c2 (matrix_at h' result)"
  using matrix_at_private [OF assms]
  by (simp add: heap_multiply_inner_def multiply_inner_def Let_def matrix_at_set_element
      heap_get_element_at)

lemma matrix_at_fold_multiply_inner:
  assumes "private_result h result h'" and "allocated h other"
  shows "matrix_at (fold (heap_multiply_inner result other r1 c1 v1) cs h') result =
           fold (multiply_inner (matrix_at h other) r1 c1 v1) cs (matrix_at h' result)"
  using assms(1)
proof (induction cs arbitrary: h')
  case Nil
  show ?case by simp
next
  case (Cons c2 cs)
  from Cons.prems
  have "private_result h result (heap_multiply_inner result other r1 c1 v1 c2 h')"
    by (rule private_result_multiply_inner)
  from Cons.IH [OF this] show ?case
    by (simp add: matrix_at_multiply_inner [OF Cons.prems assms(2)])
qed

lemma matrix_at_multiply_step:
  assumes "private_result h result h'" and "allocated h other"
  shows "matrix_at (heap_multiply_step result other x h') result =
           multiply_step (matrix_at h other) x (matrix_at h' result)"
proof -
  obtain r1 c1 v1 where x: "x = ((r1, c1), v1)"
    by (metis surj_pair)
  from assms have "cols_attr (objs h' other) = cols (matrix_at h other)"
    by (simp add: matrix_at_def allocated_def private_resultD)
  then show ?thesis
    by (simp add: x heap_multiply_step_def multiply_step_def
        matrix_at_fold_multiply_inner [OF assms])
qed

lemma matrix_at_fold_multiply_step:
  assumes "private_result h result h'" and "allocated h other"
  shows "matrix_at (fold (heap_multiply_step result other) items h') result =
           fold (multiply_step (matrix_at h other)) items (matrix_at h' result)"
  using assms(1)
proof (induction items arbitrary: h')
  case Nil
  show ?case by simp
next
  case (Cons x items)
  from Cons.prems have "private_result h result (heap_multiply_step result other x h')"
    by (rule private_result_multiply_step)
  from Cons.IH [OF this] show ?case
    by (simp add: matrix_at_multiply_step [OF Cons.prems assms(2)])
qed

lemma heap_add_refines:
  assumes "allocated h self" and "allocated h other"
  shows "result_at (heap_add h self other) = add (matrix_at h self) (matrix_at h other)"
proof (cases "rows_attr (objs h self) \<noteq> rows_attr (objs h other)
         \<or> cols_attr (objs h self) \<noteq> cols_attr (objs h other)")
  case True
  then show ?thesis
    by (auto simp: result_at_def heap_add_def add_def matrix_at_def)
next
  case False
  define h2 where "h2 = heap_copy_data
    (fst (heap_new h (rows_attr (objs h self)) (cols_attr (objs h self)))) (fresh h) self"
  define h3 where "h3 = fold (heap_add_step (fresh h)) (dicts h2 (data_attr (objs h2 other))) h2"
  have out: "heap_add h self other = (h3, Inr (fresh h))"
    using False by (simp add: heap_add_def heap_new_def Let_def h3_def h2_def)
  have p: "private_result h (fresh h) h2"
    unfolding h2_def by (rule private_result_copy_data)
  from assms(2) have items: "dicts h2 (data_attr (objs h2 other)) = data (matrix_at h other)"
    using matrix_at_private [OF p assms(2)] by (simp add: matrix_at_def)
  from assms(1) have start: "matrix_at h2 (fresh h) =
      (SparseMatrix_empty (rows (matrix_at h self)) (cols (matrix_at h self)))
        \<lparr>data := data (matrix_at h self)\<rparr>"
    by (simp add: h2_def matrix_at_def heap_copy_data_def heap_new_def Let_def
        SparseMatrix_empty_def allocated_def)
  from False show ?thesis
    unfolding out result_at_def
    by (simp add: h3_def items matrix_at_fold_add_step start add_def) (simp add: matrix_at_def)
qed

lemma heap_subtract_refines:
  assumes "allocated h self" and "allocated h other"
  shows "result_at (heap_subtract h self other) = subtract (matrix_at h self) (matrix_at h other)"
proof (cases "rows_attr (objs h self) \<noteq> rows_attr (objs h other)
         \<or> cols_attr (objs h self) \<noteq> cols_attr (objs h other)")
  case True
  then show ?thesis
    by (auto simp: result_at_def heap_subtract_def subtract_def matrix_at_def)
next
  case False
  define h2 where "h2 = heap_copy_data
    (fst (heap_new h (rows_attr (objs h self)) (cols_attr (objs h self)))) (fresh h) self"
  define h3 where
    "h3 = fold (heap_subtract_step (fresh h)) (dicts h2 (data_attr (objs h2 other))) h2"
  have out: "heap_subtract h self other = (h3, Inr (fresh h))"
    using False by (simp add: heap_subtract_def heap_new_def Let_def h3_def h2_def)
  have p: "private_result h (fresh h) h2"
    unfolding h2_def by (rule private_result_copy_data)
  from assms(2) have items: "dicts h2 (data_attr (objs h2 other)) = data (matrix_at h other)"
    using matrix_at_private [OF p assms(2)] by (simp add: matrix_at_def)
  from assms(1) have start: "matrix_at h2 (fresh h) =
      (SparseMatrix_empty (rows (matrix_at h self)) (cols (matrix_at h self)))
        \<lparr>data := data (matrix_at h self)\<rparr>"
    by (simp add: h2_def matrix_at_def heap_copy_data_def heap_new_def Let_def
        SparseMatrix_empty_def allocated_def)
  from False show ?thesis
    unfolding out result_at_def
    by (simp add: h3_def items matrix_at_fold_subtract_step start subtract_def)
       (simp add: matrix_at_def)
qed

lemma heap_multiply_refines:
  assumes "allocated h self" and "allocated h other"
  shows "result_at (heap_multiply h self other) = multiply (matrix_at h self) (matrix_at h other)"
proof (cases "cols_attr (objs h self) \<noteq> rows_attr (objs h other)")
  case True
  then show ?thesis
    by (auto simp: result_at_def heap_multiply_def multiply_def matrix_at_def)
next
  case False
  define h1 where "h1 = fst (heap_new h (rows_attr (objs h self)) (cols_attr (objs h other)))"
  define h2 where
    "h2 = fold (heap_multiply_step (fresh h) other) (dicts h1 (data_attr (objs h1 self))) h1"
  have out: "heap_multiply h self other = (h2, Inr (fresh h))"
    using False by (simp add: heap_multiply_def heap_new_def Let_def h2_def h1_def)
  have p: "private_result h (fresh h) h1"
    unfolding h1_def by (rule private_result_new)
  from assms(1) have items: "dicts h1 (data_attr (objs h1 self)) = data (matrix_at h self)"
    using matrix_at_private [OF p assms(1)] by (simp add: matrix_at_def)
  have start: "matrix_at h1 (fresh h) =
      SparseMatrix_empty (rows (matrix_at h self)) (cols (matrix_at h other))"
    by (simp add: h1_def matrix_at_def heap_new_def Let_def SparseMatrix_empty_def)
  from False show ?thesis
    unfolding out result_at_def
    by (simp add: h2_def items matrix_at_fold_multiply_step [OF p assms(2)] start multiply_def)
       (simp add: matrix_at_def)
qed

section \<open>Every matrix has distinct keys\<close>

text \<open>
  \<open>wf_dict\<close> holds of the empty dictionary and is kept by every write, so it holds
  of every matrix that the constructor or an operation returns: assuming it of an
  operand excludes no matrix of the program.
\<close>

lemma wf_dict_fold_multiply_inner:
  "wf_dict (data R) \<Longrightarrow> wf_dict (data (fold (multiply_inner other r1 c1 v1) cs R))"
  by (induction cs arbitrary: R) (simp_all add: multiply_inner_def Let_def wf_dict_set_element)

lemma wf_dict_fold_multiply_step:
  "wf_dict (data R) \<Longrightarrow> wf_dict (data (fold (multiply_step other) items R))"
  by (induction items arbitrary: R)
     (simp_all add: multiply_step_def wf_dict_fold_multiply_inner split: prod.splits)

lemma wf_dict_arithmetic:
  "wf_dict (data A) \<Longrightarrow> add A B = Inr R \<Longrightarrow> wf_dict (data R)"
  "wf_dict (data A) \<Longrightarrow> subtract A B = Inr R \<Longrightarrow> wf_dict (data R)"
  "multiply A B = Inr R \<Longrightarrow> wf_dict (data R)"
proof -
  show "wf_dict (data A) \<Longrightarrow> add A B = Inr R \<Longrightarrow> wf_dict (data R)"
    using wf_dict_fold_add_step
      [of "(SparseMatrix_empty (rows A) (cols A))\<lparr>data := data A\<rparr>" "data B"]
    by (auto simp: add_def split: if_splits)
  show "wf_dict (data A) \<Longrightarrow> subtract A B = Inr R \<Longrightarrow> wf_dict (data R)"
    using wf_dict_fold_subtract_step
      [of "(SparseMatrix_empty (rows A) (cols A))\<lparr>data := data A\<rparr>" "data B"]
    by (auto simp: subtract_def split: if_splits)
  show "multiply A B = Inr R \<Longrightarrow> wf_dict (data R)"
    using wf_dict_fold_multiply_step [of "SparseMatrix_empty (rows A) (cols B)" B "data A"]
    by (auto simp: multiply_def SparseMatrix_empty_def wf_dict_def split: if_splits)
qed

lemma wf_dict_load_line:
  "wf_dict (data self) \<Longrightarrow> load_line lim self l = Inr self' \<Longrightarrow> wf_dict (data self')"
  by (auto simp: load_line_def Let_def wf_dict_def AList.distinct_update
      split: if_splits option.splits list.splits)

lemma wf_dict_load_lines:
  "wf_dict (data self) \<Longrightarrow> load_lines lim self ls = Inr self' \<Longrightarrow> wf_dict (data self')"
proof (induction ls arbitrary: self)
  case Nil
  then show ?case by simp
next
  case (Cons l ls)
  from Cons.prems(2) obtain self1 where l: "load_line lim self l = Inr self1"
    and ls: "load_lines lim self1 ls = Inr self'"
    by (auto split: sum.splits)
  from Cons.prems(1) l have "wf_dict (data self1)"
    by (rule wf_dict_load_line)
  then show ?case
    using ls by (rule Cons.IH)
qed

lemma wf_dict_init: "SparseMatrix_init lim fs file_path r c = Inr M \<Longrightarrow> wf_dict (data M)"
proof -
  have e: "wf_dict (data \<lparr>rows = r, cols = c, data = []\<rparr>)"
    by (simp add: wf_dict_def)
  assume "SparseMatrix_init lim fs file_path r c = Inr M"
  then show ?thesis
    using e wf_dict_load_lines [of "\<lparr>rows = r, cols = c, data = []\<rparr>" lim _ M]
    by (auto simp: SparseMatrix_init_def load_from_file_def Let_def
        split: option.splits if_splits sum.splits)
qed

end
